theory Spec2Isabelle
  imports Complex_Main "HOL-Library.Word" "HOL-Library.Sublist"
begin

section \<open>Python values\<close>

text \<open>
  A Python \<open>str\<close> is a \<open>string\<close>: one list element per character.
  A \<open>bytes\<close> object is a list of 8-bit words.  A \<open>dict\<close> is an association list
  in insertion order with at most one entry per key; \<open>dict_get\<close> is \<open>d.get(k, default)\<close>
  and \<open>dict_set\<close> is \<open>d[k] = v\<close> (an existing key keeps its position, a new key goes last).
\<close>

type_synonym bytes = "8 word list"

datatype json =
    JNull
  | JBool bool
  | JNum int
  | JStr string
  | JArr "json list"
  | JObj "(string \<times> json) list"

datatype pyval =
    PStr string
  | PInt int
  | PJson json

type_synonym 'v pydict = "(string \<times> 'v) list"

fun dict_get :: "'v pydict \<Rightarrow> string \<Rightarrow> 'v \<Rightarrow> 'v" where
  "dict_get [] k dflt = dflt"
| "dict_get ((k', v) # d) k dflt = (if k' = k then v else dict_get d k dflt)"

fun dict_set :: "'v pydict \<Rightarrow> string \<Rightarrow> 'v \<Rightarrow> 'v pydict" where
  "dict_set [] k v = [(k, v)]"
| "dict_set ((k', v') # d) k v = (if k' = k then (k, v) # d else (k', v') # dict_set d k v)"

fun dict_lookup :: "'v pydict \<Rightarrow> string \<Rightarrow> 'v option" where
  "dict_lookup [] k = None"
| "dict_lookup ((k', v) # d) k = (if k' = k then Some v else dict_lookup d k)"

text \<open>\<open>{**a, **b}\<close>: the entries of \<open>b\<close> are stored into \<open>a\<close> one by one.\<close>

fun dict_merge :: "'v pydict \<Rightarrow> 'v pydict \<Rightarrow> 'v pydict" where
  "dict_merge a [] = a"
| "dict_merge a ((k, v) # b) = dict_merge (dict_set a k v) b"

definition dict_values_sum :: "int pydict \<Rightarrow> int" where
  "dict_values_sum d = sum_list (map snd d)"


section \<open>protobuf\_decoder.py: ProtobufMessageLog\<close>

record ProtobufMessageLog =
  counts :: "int pydict"
  byte_totals :: "int pydict"
  records :: "pyval pydict list"

record stats =
  downstream_count :: int
  upstream_count :: int
  downstream_bytes :: int
  upstream_bytes :: int
  total_messages :: int

definition log_init :: ProtobufMessageLog where
  "log_init =
     \<lparr> counts = [(''downstream'', 0), (''upstream'', 0)],
       byte_totals = [(''downstream'', 0), (''upstream'', 0)],
       records = [] \<rparr>"

definition log_record :: "ProtobufMessageLog \<Rightarrow> string \<Rightarrow> int \<Rightarrow> pyval pydict \<Rightarrow> ProtobufMessageLog" where
  "log_record L direction nbytes decoded =
     \<lparr> counts = dict_set (counts L) direction (dict_get (counts L) direction 0 + 1),
       byte_totals = dict_set (byte_totals L) direction (dict_get (byte_totals L) direction 0 + nbytes),
       records = records L @
         [dict_merge [(''direction'', PStr direction), (''size'', PInt nbytes)] decoded] \<rparr>"

definition get_stats :: "ProtobufMessageLog \<Rightarrow> stats" where
  "get_stats L =
     \<lparr> downstream_count = dict_get (counts L) ''downstream'' 0,
       upstream_count = dict_get (counts L) ''upstream'' 0,
       downstream_bytes = dict_get (byte_totals L) ''downstream'' 0,
       upstream_bytes = dict_get (byte_totals L) ''upstream'' 0,
       total_messages = dict_values_sum (counts L) \<rparr>"

definition log_clear :: "ProtobufMessageLog \<Rightarrow> ProtobufMessageLog" where
  "log_clear L =
     \<lparr> counts = [(''downstream'', 0), (''upstream'', 0)],
       byte_totals = [(''downstream'', 0), (''upstream'', 0)],
       records = [] \<rparr>"

text \<open>A call sequence on one accumulator, starting from the constructor.\<close>

datatype log_call = Record string int "pyval pydict" | Clear

fun log_step :: "ProtobufMessageLog \<Rightarrow> log_call \<Rightarrow> ProtobufMessageLog" where
  "log_step L (Record direction nbytes decoded) = log_record L direction nbytes decoded"
| "log_step L Clear = log_clear L"

definition log_run :: "log_call list \<Rightarrow> ProtobufMessageLog" where
  "log_run calls = foldl log_step log_init calls"

fun two_way :: "log_call \<Rightarrow> bool" where
  "two_way (Record direction nbytes decoded) = (direction = ''downstream'' \<or> direction = ''upstream'')"
| "two_way Clear = True"


section \<open>Python floats\<close>

text \<open>
  A Python \<open>float\<close> is an IEEE-754 binary64 number.  A finite one is a rational, and an
  arithmetic operation returns the exact result rounded to the nearest number with a 53-bit
  significand, ties to the even significand.  Overflow, subnormal numbers, infinities and
  NaN are outside this model: the exponent is unbounded.
\<close>

type_synonym pyfloat = rat

text \<open>\<open>n.bit_length()\<close> of a non-negative integer.\<close>

function bit_length :: "int \<Rightarrow> int" where
  "bit_length n = (if n \<le> 0 then 0 else 1 + bit_length (n div 2))"
  by auto
termination
  by (relation "measure nat") auto

declare bit_length.simps [simp del]

definition pow2 :: "int \<Rightarrow> rat" where
  "pow2 k = (if 0 \<le> k then 2 ^ nat k else 1 / 2 ^ nat (- k))"

definition round_half_even :: "rat \<Rightarrow> int" where
  "round_half_even q =
     (let f = \<lfloor>q\<rfloor>; r = q - of_int f
      in if r < 1 / 2 then f else if 1 / 2 < r then f + 1 else if even f then f else f + 1)"

text \<open>The exponent \<open>e\<close> with \<open>2 ^ 52 \<le> \<bar>x\<bar> / 2 ^ e < 2 ^ 53\<close>, for \<open>x \<noteq> 0\<close>.\<close>

definition float_exponent :: "rat \<Rightarrow> int" where
  "float_exponent x =
     (let (p, q) = quotient_of \<bar>x\<bar>;
          e0 = bit_length p - bit_length q - 53
      in if \<bar>x\<bar> / pow2 e0 < 2 ^ 53 then e0 else e0 + 1)"

definition round_to_binary64 :: "rat \<Rightarrow> pyfloat" where
  "round_to_binary64 x =
     (if x = 0 then 0
      else of_int (round_half_even (x / pow2 (float_exponent x))) * pow2 (float_exponent x))"

definition f_add :: "pyfloat \<Rightarrow> pyfloat \<Rightarrow> pyfloat" where
  "f_add a b = round_to_binary64 (a + b)"

definition f_sub :: "pyfloat \<Rightarrow> pyfloat \<Rightarrow> pyfloat" where
  "f_sub a b = round_to_binary64 (a - b)"

definition f_mul :: "pyfloat \<Rightarrow> pyfloat \<Rightarrow> pyfloat" where
  "f_mul a b = round_to_binary64 (a * b)"

definition f_div :: "pyfloat \<Rightarrow> pyfloat \<Rightarrow> pyfloat" where
  "f_div a b = round_to_binary64 (a / b)"

text \<open>\<open>sum(xs)\<close> adds from the left, starting at 0; \<open>min\<close> and \<open>max\<close> of a non-empty
  list keep the first extremal element.\<close>

definition py_sum :: "pyfloat list \<Rightarrow> pyfloat" where
  "py_sum xs = foldl f_add 0 xs"

definition py_min :: "pyfloat \<Rightarrow> pyfloat list \<Rightarrow> pyfloat" where
  "py_min x xs = foldl (\<lambda>m y. if y < m then y else m) x xs"

definition py_max :: "pyfloat \<Rightarrow> pyfloat list \<Rightarrow> pyfloat" where
  "py_max x xs = foldl (\<lambda>m y. if m < y then y else m) x xs"


section \<open>Python strings\<close>

text \<open>\<open>s.replace(old, new)\<close> for a non-empty \<open>old\<close>: every non-overlapping occurrence,
  left to right.\<close>

fun str_replace :: "string \<Rightarrow> string \<Rightarrow> string \<Rightarrow> string" where
  "str_replace old new [] = []"
| "str_replace old new (c # cs) =
     (if old \<noteq> [] \<and> prefix old (c # cs)
      then new @ str_replace old new (drop (length old) (c # cs))
      else c # str_replace old new cs)"

text \<open>\<open>p in s\<close> for strings.\<close>

fun str_contains :: "string \<Rightarrow> string \<Rightarrow> bool" where
  "str_contains [] p = (p = [])"
| "str_contains (c # cs) p = (prefix p (c # cs) \<or> str_contains cs p)"

text \<open>Format specifications \<open><n\<close> and \<open>>n\<close>: pad with spaces to width \<open>n\<close>.\<close>

definition ljust :: "nat \<Rightarrow> string \<Rightarrow> string" where
  "ljust n s = s @ replicate (n - length s) CHR '' ''"

definition rjust :: "nat \<Rightarrow> string \<Rightarrow> string" where
  "rjust n s = replicate (n - length s) CHR '' '' @ s"

text \<open>\<open>text[:limit]\<close>: a negative limit counts from the end.\<close>

definition slice_to :: "string \<Rightarrow> int \<Rightarrow> string" where
  "slice_to s limit =
     (if 0 \<le> limit then take (nat limit) s else take (nat (int (length s) + limit)) s)"

fun digits :: "nat \<Rightarrow> string" where
  "digits n =
     (if n < 10 then [char_of (48 + n)] else digits (n div 10) @ [char_of (48 + n mod 10)])"

declare digits.simps [simp del]

definition str_of_int :: "int \<Rightarrow> string" where
  "str_of_int i = (if i < 0 then CHR ''-'' # digits (nat (- i)) else digits (nat i))"


section \<open>External collaborators\<close>

text \<open>
  The frame classes, the protobuf schema and parser, the frame serializer, \<open>json\<close>, \<open>loguru\<close>
  and float formatting belong to libraries.  What the code reads of a frame is a record;
  the library operations are the fields of \<open>externals\<close>.  An operation that may raise returns
  the exception as a value.
\<close>

datatype py_error =
    ValueError | TypeError | JSONDecodeError | DecodeError | RuntimeError | RecursionError

text \<open>
  \<open>isinstance(e, cls)\<close> for exceptions: \<open>JSONDecodeError\<close> is a subclass of
  \<open>ValueError\<close> and \<open>RecursionError\<close> of \<open>RuntimeError\<close>.  A clause
  \<open>except (A, B)\<close> catches \<open>e\<close> when \<open>caught e [A, B]\<close>; \<open>except Exception\<close>
  catches every \<open>py_error\<close>.
\<close>

definition error_isinstance :: "py_error \<Rightarrow> py_error \<Rightarrow> bool" where
  "error_isinstance e cls =
     (e = cls \<or> (e = JSONDecodeError \<and> cls = ValueError)
      \<or> (e = RecursionError \<and> cls = RuntimeError))"

definition caught :: "py_error \<Rightarrow> py_error list \<Rightarrow> bool" where
  "caught e classes = list_ex (error_isinstance e) classes"

record frame =
  class_name :: string
  class_bases :: "string list"
  frame_text :: "string option"
  frame_audio :: "bytes option"
  frame_sample_rate :: "int option"
  frame_message :: "json option"

text \<open>
  \<open>class_name\<close> is \<open>type(frame).__name__\<close> and \<open>class_bases\<close> names the classes it inherits
  from.  \<open>frame_text\<close> is the attribute \<open>text\<close> (\<open>None\<close>: no such attribute);
  \<open>frame_audio\<close> is the attribute \<open>audio\<close> (\<open>None\<close>: absent or \<open>None\<close>);
  \<open>frame_message\<close> is the attribute \<open>message\<close> when it is a \<open>dict\<close>.
\<close>

definition isinstance :: "frame \<Rightarrow> string list \<Rightarrow> bool" where
  "isinstance f classes = list_ex (\<lambda>c. c = class_name f \<or> c \<in> set (class_bases f)) classes"

datatype FrameDirection = DOWNSTREAM | UPSTREAM | OtherDirection

record FramePushed =
  fp_frame :: frame
  fp_direction :: FrameDirection
  fp_source :: "string option"
  fp_destination :: "string option"

text \<open>The parsed \<open>FrameProto\<close>: \<open>HasField(x)\<close> holds when the field is not \<open>None\<close>.\<close>

record FrameProto =
  pb_text :: "string option"
  pb_transcription :: "(string \<times> string) option"
  pb_audio :: "(bytes \<times> int) option"
  pb_message :: "string option"

record externals =
  ParseFromString :: "bytes \<Rightarrow> FrameProto option"
  json_loads :: "string \<Rightarrow> py_error + json"
  json_dumps :: "json \<Rightarrow> py_error + string"
  serialize :: "frame \<Rightarrow> py_error + bytes option"
  logger_debug :: "string \<Rightarrow> py_error option"
  format_float :: "nat \<Rightarrow> pyfloat \<Rightarrow> string"

text \<open>
  \<open>ParseFromString\<close> returns \<open>None\<close> when it raises (the caller catches
  \<open>Exception\<close>); \<open>json_loads\<close>, \<open>json_dumps\<close> and \<open>serialize\<close> return \<open>Inl\<close> of the
  exception they raise, and \<open>serialize\<close> returns \<open>Inr None\<close> for a frame it does not
  serialize;
  \<open>logger_debug line\<close> is \<open>logger.opt(ansi=True).debug(line)\<close> and returns the exception it
  raises, if any; \<open>format_float n x\<close> is \<open>x\<close> with \<open>n\<close> decimals.
\<close>


section \<open>protobuf\_decoder.py: decode\_protobuf\<close>

text \<open>
  The result is \<open>Inr\<close> of the returned dict, or \<open>Inl\<close> of the exception that leaves the
  function: what \<open>json.loads\<close> raises outside \<open>(JSONDecodeError, TypeError)\<close> is not
  caught.
\<close>

definition decode_protobuf :: "externals \<Rightarrow> bytes \<Rightarrow> py_error + pyval pydict" where
  "decode_protobuf ext data =
     (case ParseFromString ext data of
        None \<Rightarrow> Inr [(''type'', PStr ''unknown''), (''size_bytes'', PInt (int (length data)))]
      | Some proto \<Rightarrow>
          (case pb_text proto of
             Some t \<Rightarrow> Inr [(''type'', PStr ''text''), (''text'', PStr t)]
           | None \<Rightarrow>
          (case pb_transcription proto of
             Some (t, user_id) \<Rightarrow>
               (let result = [(''type'', PStr ''transcription''), (''text'', PStr t)]
                in Inr (if user_id \<noteq> [] then dict_set result ''user_id'' (PStr user_id) else result))
           | None \<Rightarrow>
          (case pb_audio proto of
             Some (a, rate) \<Rightarrow>
               Inr [(''type'', PStr ''audio''), (''size_bytes'', PInt (int (length a))),
                    (''sample_rate'', PInt rate)]
           | None \<Rightarrow>
          (case pb_message proto of
             Some raw \<Rightarrow>
               (case json_loads ext raw of
                  Inr parsed \<Rightarrow> Inr [(''type'', PStr ''message''), (''data'', PJson parsed)]
                | Inl e \<Rightarrow>
                    if caught e [JSONDecodeError, TypeError]
                    then Inr [(''type'', PStr ''message''), (''data'', PStr raw)]
                    else Inl e)
           | None \<Rightarrow>
               Inr [(''type'', PStr ''empty''), (''size_bytes'', PInt (int (length data)))])))))"


section \<open>observability\_config.py\<close>

definition AUDIO_FRAMES :: "string list" where
  "AUDIO_FRAMES = [''InputAudioRawFrame'', ''OutputAudioRawFrame'']"

definition TEXT_FRAMES :: "string list" where
  "TEXT_FRAMES = [''TextFrame'', ''TranscriptionFrame'', ''InterimTranscriptionFrame'', ''LLMTextFrame'']"

record ObservabilityConfig =
  enabled :: bool
  enable_binary_logging :: bool
  enable_audio_capture :: bool
  enable_text_capture :: bool
  enable_timing_metrics :: bool
  truncate_text_at :: int

definition default_config :: ObservabilityConfig where
  "default_config =
     \<lparr> enabled = True, enable_binary_logging = True, enable_audio_capture = False,
       enable_text_capture = True, enable_timing_metrics = True, truncate_text_at = 80 \<rparr>"

definition should_capture_frame :: "ObservabilityConfig \<Rightarrow> frame \<Rightarrow> bool" where
  "should_capture_frame cfg f =
     (if \<not> enabled cfg then False
      else if isinstance f AUDIO_FRAMES \<and> \<not> enable_audio_capture cfg then False
      else if isinstance f TEXT_FRAMES \<and> \<not> enable_text_capture cfg then False
      else True)"


section \<open>pipeline\_observer.py\<close>

definition FRAME_TAGS :: "string pydict" where
  "FRAME_TAGS =
     [(''UserStartedSpeakingFrame'', ''USR-START''),
      (''UserStoppedSpeakingFrame'', ''USR-STOP''),
      (''BotStartedSpeakingFrame'', ''BOT-START''),
      (''BotStoppedSpeakingFrame'', ''BOT-STOP''),
      (''TranscriptionFrame'', ''STT''),
      (''InterimTranscriptionFrame'', ''STT-PART''),
      (''LLMTextFrame'', ''LLM''),
      (''TextFrame'', ''TEXT''),
      (''InputAudioRawFrame'', ''AUDIO-IN''),
      (''OutputAudioRawFrame'', ''AUDIO-OUT''),
      (''TTSStartedFrame'', ''TTS-START''),
      (''TTSStoppedFrame'', ''TTS-STOP''),
      (''LLMFullResponseStartFrame'', ''LLM-START''),
      (''LLMFullResponseEndFrame'', ''LLM-END''),
      (''StartFrame'', ''START''),
      (''EndFrame'', ''END''),
      (''CancelFrame'', ''CANCEL''),
      (''OutputTransportMessageFrame'', ''MSG'')]"

definition get_tag :: "frame \<Rightarrow> string" where
  "get_tag f = dict_get FRAME_TAGS (class_name f) (take 10 (class_name f))"

record PipelineObserver =
  config :: ObservabilityConfig
  protobuf_log :: ProtobufMessageLog
  last_frame_time :: "pyfloat option"
  frame_counts :: "int pydict"
  latencies :: "pyfloat list pydict"
  pending_tasks :: "(frame \<times> string) list"
  session_start :: pyfloat

text \<open>The constructor; \<open>now\<close> is the value \<open>time.time()\<close> returns.\<close>

definition observer_init :: "ObservabilityConfig \<Rightarrow> pyfloat \<Rightarrow> PipelineObserver" where
  "observer_init cfg now =
     \<lparr> config = cfg, protobuf_log = log_init, last_frame_time = None, frame_counts = [],
       latencies = [], pending_tasks = [], session_start = now \<rparr>"

definition format_processor_name :: "string \<Rightarrow> string" where
  "format_processor_name name0 =
     (let name = str_replace ''Service#0'' [] name0;
          name = str_replace ''Transport#0'' [] name;
          name = str_replace ''Processor#0'' [] name;
          name = str_replace ''Aggregator#0'' [] name;
          name = str_replace ''#0'' [] name;
          name = str_replace ''FastAPIWebsocketInput'' ''WS-In'' name;
          name = str_replace ''FastAPIWebsocketOutput'' ''WS-Out'' name;
          name = str_replace ''Pipeline#0::'' [] name;
          name = str_replace ''PipelineTask#0::'' ''Task:'' name;
          name = str_replace ''Deepgram'' ''DG'' name;
          name = str_replace ''OpenAIAgent'' ''Agent'' name;
          name = str_replace ''LLMUser'' ''User'' name;
          name = str_replace ''LLMAssistant'' ''Asst'' name
      in name)"

text \<open>\<open>if len(text) > limit: text = text[:limit] + "..."\<close>\<close>

definition truncate_at :: "ObservabilityConfig \<Rightarrow> string \<Rightarrow> string" where
  "truncate_at cfg t =
     (let limit = truncate_text_at cfg
      in if limit < int (length t) then slice_to t limit @ ''...'' else t)"

text \<open>\<open>hasattr(frame, "text") and frame.text\<close>: the text, when present and not empty.\<close>

definition truthy_text :: "frame \<Rightarrow> string option" where
  "truthy_text f = (case frame_text f of None \<Rightarrow> None | Some t \<Rightarrow> if t = [] then None else Some t)"

text \<open>
  \<open>_extract_content\<close>: \<open>Inr\<close> of the returned value, or \<open>Inl\<close> of the exception that
  leaves the function.  What \<open>json.dumps\<close> raises inside \<open>(TypeError, ValueError)\<close> is
  caught and the function returns \<open>None\<close>; anything else is not caught.
\<close>

definition extract_content ::
    "externals \<Rightarrow> ObservabilityConfig \<Rightarrow> frame \<Rightarrow> py_error + string option" where
  "extract_content ext cfg f =
     (case truthy_text f of
        Some t \<Rightarrow> Inr (Some ([CHR 0x22] @ truncate_at cfg t @ [CHR 0x22]))
      | None \<Rightarrow>
          (case (if isinstance f [''InputAudioRawFrame'', ''OutputAudioRawFrame'']
                 then frame_audio f else None) of
             Some a \<Rightarrow>
               (let size_kb = f_div (of_nat (length a)) 1024;
                    rate = (case frame_sample_rate f of None \<Rightarrow> 0 | Some r \<Rightarrow> r)
                in Inr (Some (''['' @ format_float ext 1 size_kb @ ''KB @ '' @ str_of_int rate @ ''Hz]'')))
           | None \<Rightarrow>
               (case frame_message f of
                  None \<Rightarrow> Inr None
                | Some m \<Rightarrow>
                    (case json_dumps ext m of
                       Inr dumped \<Rightarrow> Inr (Some (truncate_at cfg dumped))
                     | Inl e \<Rightarrow> if caught e [TypeError, ValueError] then Inr None else Inl e))))"

text \<open>
  \<open>_background_serialize_and_log\<close>: the effect of one background task on the decode
  accumulator.  The body is one \<open>try\<close> with \<open>except Exception: pass\<close>: an exception of
  the serializer or of \<open>decode_protobuf\<close> ends the task before \<open>record\<close> is called.
  (The \<open>logger.trace\<close> call comes after \<open>record\<close>; what it raises is swallowed too and
  changes nothing.)
\<close>

definition background_serialize_and_log ::
    "externals \<Rightarrow> ProtobufMessageLog \<Rightarrow> frame \<Rightarrow> string \<Rightarrow> ProtobufMessageLog" where
  "background_serialize_and_log ext L f direction_label =
     (case serialize ext f of
        Inl e \<Rightarrow> L
      | Inr None \<Rightarrow> L
      | Inr (Some serialized) \<Rightarrow>
          if serialized = [] then L
          else (case decode_protobuf ext serialized of
                  Inl e \<Rightarrow> L
                | Inr decoded \<Rightarrow> log_record L direction_label (int (length serialized)) decoded))"

text \<open>The first pending task runs to completion and leaves the in-flight set.\<close>

definition complete_task :: "externals \<Rightarrow> PipelineObserver \<Rightarrow> PipelineObserver" where
  "complete_task ext obs =
     (case pending_tasks obs of
        [] \<Rightarrow> obs
      | (f, direction_label) # rest \<Rightarrow>
          obs\<lparr> protobuf_log := background_serialize_and_log ext (protobuf_log obs) f direction_label,
               pending_tasks := rest \<rparr>)"

definition direction_label_of :: "FrameDirection \<Rightarrow> string" where
  "direction_label_of d =
     (if d = DOWNSTREAM then ''downstream'' else if d = UPSTREAM then ''upstream'' else ''control'')"

definition arrow_of :: "FrameDirection \<Rightarrow> string" where
  "arrow_of d =
     (if d = DOWNSTREAM then ''<green>>></green>''
      else if d = UPSTREAM then ''<blue>&lt;&lt;</blue>''
      else ''<dim>--</dim>'')"

text \<open>Lines 169--171: the latency of the event, absent without a previous accepted event.\<close>

definition latency_ms_of :: "PipelineObserver \<Rightarrow> pyfloat \<Rightarrow> pyfloat option" where
  "latency_ms_of obs current_time =
     (case last_frame_time obs of
        None \<Rightarrow> None
      | Some t \<Rightarrow> Some (f_mul (f_sub current_time t) 1000))"

text \<open>\<open>self._latencies.setdefault(frame_type, []).append(latency_ms)\<close>\<close>

definition append_latency :: "pyfloat list pydict \<Rightarrow> string \<Rightarrow> pyfloat \<Rightarrow> pyfloat list pydict" where
  "append_latency d frame_type l = dict_set d frame_type (dict_get d frame_type [] @ [l])"

text \<open>Lines 166--178: the statistics update of an accepted event.\<close>

definition update_statistics :: "PipelineObserver \<Rightarrow> pyfloat \<Rightarrow> string \<Rightarrow> PipelineObserver" where
  "update_statistics obs current_time frame_type =
     obs\<lparr> last_frame_time := Some current_time,
          latencies :=
            (case latency_ms_of obs current_time of
               Some l \<Rightarrow>
                 if enable_timing_metrics (config obs)
                 then append_latency (latencies obs) frame_type l else latencies obs
             | None \<Rightarrow> latencies obs),
          frame_counts :=
            dict_set (frame_counts obs) frame_type (dict_get (frame_counts obs) frame_type 0 + 1) \<rparr>"

text \<open>
  Lines 180--226: the trace line, or the exception \<open>_extract_content\<close> lets through at
  line 214.
\<close>

definition trace_line ::
    "externals \<Rightarrow> PipelineObserver \<Rightarrow> pyfloat \<Rightarrow> FramePushed \<Rightarrow> py_error + string" where
  "trace_line ext obs current_time data =
     (let f = fp_frame data;
          frame_type = class_name f;
          source = format_processor_name (case fp_source data of None \<Rightarrow> ''?'' | Some n \<Rightarrow> n);
          dest = format_processor_name (case fp_destination data of None \<Rightarrow> ''?'' | Some n \<Rightarrow> n);
          elapsed = f_sub current_time (session_start obs);
          tag = get_tag f;
          lat_str =
            (case latency_ms_of obs current_time of
               Some l \<Rightarrow>
                 if enable_timing_metrics (config obs)
                 then rjust 6 (format_float ext 1 l) @ ''ms'' else []
             | None \<Rightarrow> [])
      in case extract_content ext (config obs) f of
           Inl e \<Rightarrow> Inl e
         | Inr content \<Rightarrow>
             (let line = ''<dim>'' @ rjust 7 (format_float ext 2 elapsed) @ ''s</dim>  ''
                    @ arrow_of (fp_direction data) @ ''  [<bold>'' @ ljust 9 tag @ ''</bold>] ''
                    @ ljust 30 frame_type @ '' <dim>'' @ rjust 12 source @ '' -> ''
                    @ ljust 12 dest @ ''</dim>'';
                  line = (if lat_str \<noteq> [] then line @ ''  '' @ lat_str else line);
                  line = (case content of
                            None \<Rightarrow> line
                          | Some c \<Rightarrow>
                              if c \<noteq> [] then line @ [CHR 0x0A] @ rjust 26 [] @ c else line)
              in Inr line))"

text \<open>
  \<open>on_push_frame\<close>.  \<open>current_time\<close> is the value \<open>time.time()\<close> returns in this call.
  The result is the observer after the call and the exception that leaves the call, if any:
  the function has no \<open>try\<close>, so what \<open>_extract_content\<close> lets through (line 214) and
  what \<open>logger.debug\<close> raises (line 228) propagate, after the statistics were updated and
  before the background task is scheduled.
\<close>

definition on_push_frame ::
    "externals \<Rightarrow> pyfloat \<Rightarrow> PipelineObserver \<Rightarrow> FramePushed \<Rightarrow> PipelineObserver \<times> py_error option" where
  "on_push_frame ext current_time obs data =
     (if \<not> enabled (config obs) then (obs, None)
      else if \<not> should_capture_frame (config obs) (fp_frame data) then (obs, None)
      else
        (let obs' = update_statistics obs current_time (class_name (fp_frame data))
         in case trace_line ext obs current_time data of
              Inl e \<Rightarrow> (obs', Some e)
            | Inr line \<Rightarrow>
                (case logger_debug ext line of
                   Some e \<Rightarrow> (obs', Some e)
                 | None \<Rightarrow>
                     if enable_binary_logging (config obs)
                     then (obs'\<lparr> pending_tasks := pending_tasks obs' @
                                   [(fp_frame data, direction_label_of (fp_direction data))] \<rparr>, None)
                     else (obs', None))))"

definition get_frame_counts :: "PipelineObserver \<Rightarrow> int pydict" where
  "get_frame_counts obs = frame_counts obs"

record latency_entry =
  count :: int
  min_ms :: pyfloat
  max_ms :: pyfloat
  avg_ms :: pyfloat

definition stats_entry :: "pyfloat \<Rightarrow> pyfloat list \<Rightarrow> latency_entry" where
  "stats_entry x xs =
     \<lparr> count = int (length (x # xs)), min_ms = py_min x xs, max_ms = py_max x xs,
       avg_ms = f_div (py_sum (x # xs)) (of_nat (length (x # xs))) \<rparr>"

definition get_latency_stats :: "PipelineObserver \<Rightarrow> latency_entry pydict" where
  "get_latency_stats obs =
     foldl (\<lambda>stats (ft, lats).
              case lats of [] \<Rightarrow> stats | x # xs \<Rightarrow> dict_set stats ft (stats_entry x xs))
       [] (latencies obs)"

definition reset :: "PipelineObserver \<Rightarrow> pyfloat \<Rightarrow> PipelineObserver" where
  "reset obs now =
     obs\<lparr> last_frame_time := None, frame_counts := [], latencies := [],
          protobuf_log := log_clear (protobuf_log obs), session_start := now,
          pending_tasks := [] \<rparr>"

text \<open>The dispatcher calls the hook once per event, each with its own clock reading.\<close>

definition accepted :: "ObservabilityConfig \<Rightarrow> FramePushed \<Rightarrow> bool" where
  "accepted cfg data = (enabled cfg \<and> should_capture_frame cfg (fp_frame data))"

definition run_events ::
    "externals \<Rightarrow> PipelineObserver \<Rightarrow> (pyfloat \<times> FramePushed) list \<Rightarrow> PipelineObserver" where
  "run_events ext obs evs = foldl (\<lambda>ob (now, data). fst (on_push_frame ext now ob data)) obs evs"


section \<open>Concrete inputs\<close>

text \<open>
  Stand-ins for the library operations, used at concrete inputs only.  The parser accepts
  the empty payload as a message with no field set and rejects everything else (as
  \<open>ParseFromString\<close> rejects the one-byte payload \<open>0xFF\<close>, a truncated varint);
  \<open>json.loads\<close> rejects every string and \<open>json.dumps\<close> every value with an exception the
  caller catches; the serializer serializes nothing; the logging sink accepts every line.
\<close>

definition empty_proto :: FrameProto where
  "empty_proto = \<lparr> pb_text = None, pb_transcription = None, pb_audio = None, pb_message = None \<rparr>"

definition quiet_externals :: externals where
  "quiet_externals =
     \<lparr> ParseFromString = (\<lambda>data. if data = [] then Some empty_proto else None),
       json_loads = (\<lambda>raw. Inl JSONDecodeError),
       json_dumps = (\<lambda>m. Inl TypeError),
       serialize = (\<lambda>f. Inr None),
       logger_debug = (\<lambda>line. None),
       format_float = (\<lambda>n x. ''0.0'') \<rparr>"

text \<open>
  A logging sink that raises: \<open>loguru\<close> parses the line for colour markup
  (\<open>ansi=True\<close>) and raises \<open>ValueError\<close> on a closing tag that has no opening tag.
  The sink here raises on a line that contains \<open></b>\<close> (the tags the observer writes
  itself are \<open>dim\<close>, \<open>bold\<close>, \<open>green\<close> and \<open>blue\<close>) and accepts every other
  line.
\<close>

definition raising_externals :: externals where
  "raising_externals =
     quiet_externals
       \<lparr> logger_debug := (\<lambda>line. if str_contains line ''</b>'' then Some ValueError else None) \<rparr>"

text \<open>
  A value nested deeper than the interpreter's recursion limit: a dict nested 100000 levels
  and a text of 100000 opening brackets.  On these \<open>json.dumps\<close> and \<open>json.loads\<close> raise
  \<open>RecursionError\<close>.  The parser of \<open>deep_externals\<close> reads every payload as a message
  frame whose data is that text, and its serializer gives a two-byte payload.
\<close>

fun nested :: "nat \<Rightarrow> json" where
  "nested 0 = JObj []"
| "nested (Suc n) = JObj [(''a'', nested n)]"

definition deep_dict :: json where
  "deep_dict = nested 100000"

definition deep_text :: string where
  "deep_text = replicate 100000 CHR ''[''"

definition deep_externals :: externals where
  "deep_externals =
     quiet_externals
       \<lparr> ParseFromString := (\<lambda>data. Some (empty_proto \<lparr> pb_message := Some deep_text \<rparr>)),
         json_loads := (\<lambda>raw. if raw = deep_text then Inl RecursionError else Inl JSONDecodeError),
         json_dumps := (\<lambda>m. if m = deep_dict then Inl RecursionError else Inl TypeError),
         serialize := (\<lambda>f. Inr (Some [0x22, 0x00])) \<rparr>"


definition message_frame :: "json \<Rightarrow> frame" where
  "message_frame m =
     \<lparr> class_name = ''OutputTransportMessageFrame'', class_bases = [''DataFrame'', ''Frame''],
       frame_text = None, frame_audio = None, frame_sample_rate = None,
       frame_message = Some m \<rparr>"

definition text_frame :: "string \<Rightarrow> frame" where
  "text_frame t =
     \<lparr> class_name = ''TextFrame'', class_bases = [''DataFrame'', ''Frame''],
       frame_text = Some t, frame_audio = None, frame_sample_rate = None,
       frame_message = None \<rparr>"

definition audio_frame :: "bytes \<Rightarrow> frame" where
  "audio_frame a =
     \<lparr> class_name = ''InputAudioRawFrame'', class_bases = [''SystemFrame'', ''AudioRawFrame'', ''Frame''],
       frame_text = None, frame_audio = Some a, frame_sample_rate = Some 16000,
       frame_message = None \<rparr>"

definition pushed :: "frame \<Rightarrow> FrameDirection \<Rightarrow> FramePushed" where
  "pushed f d =
     \<lparr> fp_frame = f, fp_direction = d, fp_source = Some ''LLMService#0'',
       fp_destination = Some ''TTSService#0'' \<rparr>"


text \<open>The float \<open>0.1\<close>, an observer holding three latency samples of \<open>0.1\<close> ms in one
  category, and one holding a category with two samples and a category with none.\<close>

definition tenth :: pyfloat where
  "tenth = 3602879701896397 / 36028797018963968"

definition stuck_observer :: PipelineObserver where
  "stuck_observer =
     (observer_init default_config 0)\<lparr> latencies := [(''TextFrame'', [tenth, tenth, tenth])] \<rparr>"

definition sample_observer :: PipelineObserver where
  "sample_observer =
     (observer_init default_config 0)\<lparr> latencies := [(''TextFrame'', [1, 3]), (''EndFrame'', [])] \<rparr>"


section \<open>Accumulator lemmas\<close>

lemma dict_values_sum_set:
  "dict_values_sum (dict_set d k v) = dict_values_sum d - dict_get d k 0 + v"
  by (induction d) (auto simp: dict_values_sum_def)

lemma dict_get_set_other: "k' \<noteq> k \<Longrightarrow> dict_get (dict_set d k v) k' dflt = dict_get d k' dflt"
  by (induction d) auto

lemma dict_get_set_same: "dict_get (dict_set d k v) k dflt = v"
  by (induction d) auto


lemma log_run_snoc: "log_run (calls @ [c]) = log_step (log_run calls) c"
  by (simp add: log_run_def)

lemma two_way_counts_shape:
  "list_all two_way calls \<Longrightarrow>
     \<exists>a b. counts (log_run calls) = [(''downstream'', a), (''upstream'', b)]"
proof (induction calls rule: rev_induct)
  case Nil
  show ?case by (simp add: log_run_def log_init_def)
next
  case (snoc c calls)
  then obtain a b where ab: "counts (log_run calls) = [(''downstream'', a), (''upstream'', b)]"
    by auto
  show ?case
  proof (cases c)
    case Clear
    then show ?thesis by (simp add: log_run_snoc log_clear_def)
  next
    case (Record direction nbytes decoded)
    with snoc.prems have "direction = ''downstream'' \<or> direction = ''upstream''"
      by simp
    with Record ab show ?thesis
      by (auto simp: log_run_snoc log_record_def)
  qed
qed


section \<open>Decode accumulator: claims\<close>

text \<open>
  C9.  After any sequence of \<open>record\<close> (and \<open>clear\<close>) calls, \<open>clear()\<close> followed by
  \<open>get_stats()\<close> reports zero for \<open>downstream_count\<close>, \<open>upstream_count\<close>,
  \<open>downstream_bytes\<close>, \<open>upstream_bytes\<close> and \<open>total_messages\<close>, and the record log is empty.
\<close>

theorem C9_clear_resets:
  "get_stats (log_clear (log_run calls)) =
     \<lparr> downstream_count = 0, upstream_count = 0, downstream_bytes = 0,
       upstream_bytes = 0, total_messages = 0 \<rparr>
   \<and> records (log_clear (log_run calls)) = []"
  by (simp add: get_stats_def log_clear_def dict_values_sum_def)

text \<open>
  C3, as stated: after every sequence of \<open>record\<close> and \<open>clear\<close> calls,
  \<open>total_messages = downstream_count + upstream_count\<close>.  One \<open>record\<close> call with the
  direction \<open>control\<close> (the label the observer uses for a frame that travels neither
  downstream nor upstream) breaks the equation: the message is counted in the total and in
  neither direction count.
\<close>

theorem C3_counterexample:
  "total_messages (get_stats (log_run [Record ''control'' 7 []])) = 1
   \<and> downstream_count (get_stats (log_run [Record ''control'' 7 []])) = 0
   \<and> upstream_count (get_stats (log_run [Record ''control'' 7 []])) = 0"
  by (simp add: log_run_def log_init_def log_record_def get_stats_def dict_values_sum_def)

text \<open>
  C3, amended: after every sequence of \<open>record\<close> and \<open>clear\<close> calls in which each
  \<open>record\<close> carries the direction \<open>downstream\<close> or \<open>upstream\<close> (the two values the
  docstring of \<open>record\<close> names), \<open>total_messages = downstream_count + upstream_count\<close>.
\<close>

theorem C3_total_is_sum_two_way:
  assumes "list_all two_way calls"
  shows "total_messages (get_stats (log_run calls)) =
           downstream_count (get_stats (log_run calls)) + upstream_count (get_stats (log_run calls))"
proof -
  from two_way_counts_shape [OF assms]
  obtain a b where "counts (log_run calls) = [(''downstream'', a), (''upstream'', b)]"
    by auto
  then show ?thesis
    by (simp add: get_stats_def dict_values_sum_def)
qed

theorem C3_total_is_sum_two_way_witness:
  "list_all two_way [Record ''downstream'' 3 [], Clear, Record ''upstream'' 5 [], Record ''upstream'' 2 []]
   \<and> total_messages (get_stats (log_run
        [Record ''downstream'' 3 [], Clear, Record ''upstream'' 5 [], Record ''upstream'' 2 []])) =
      downstream_count (get_stats (log_run
        [Record ''downstream'' 3 [], Clear, Record ''upstream'' 5 [], Record ''upstream'' 2 []])) +
      upstream_count (get_stats (log_run
        [Record ''downstream'' 3 [], Clear, Record ''upstream'' 5 [], Record ''upstream'' 2 []]))"
proof -
  have h: "list_all two_way
      [Record ''downstream'' 3 [], Clear, Record ''upstream'' 5 [], Record ''upstream'' 2 []]"
    by simp
  from C3_total_is_sum_two_way [OF h] h show ?thesis
    by blast
qed


section \<open>Decoder, capture policy and content extraction: claims\<close>


text \<open>
  C10.  A \<open>record\<close> call whose direction is neither \<open>downstream\<close> nor \<open>upstream\<close> (the
  observer passes \<open>control\<close> for a frame of any other direction) appends a record and
  counts the message under its own key: \<open>get_stats\<close> then reports the four direction
  figures unchanged and \<open>total_messages\<close> one higher.
\<close>

theorem C10_extra_direction_counted:
  assumes "direction \<noteq> ''downstream''" and "direction \<noteq> ''upstream''"
  shows "records (log_record L direction nbytes decoded) =
           records L @ [dict_merge [(''direction'', PStr direction), (''size'', PInt nbytes)] decoded]
       \<and> dict_get (counts (log_record L direction nbytes decoded)) direction 0 =
           dict_get (counts L) direction 0 + 1
       \<and> downstream_count (get_stats (log_record L direction nbytes decoded)) = downstream_count (get_stats L)
       \<and> upstream_count (get_stats (log_record L direction nbytes decoded)) = upstream_count (get_stats L)
       \<and> downstream_bytes (get_stats (log_record L direction nbytes decoded)) = downstream_bytes (get_stats L)
       \<and> upstream_bytes (get_stats (log_record L direction nbytes decoded)) = upstream_bytes (get_stats L)
       \<and> total_messages (get_stats (log_record L direction nbytes decoded)) = total_messages (get_stats L) + 1
       \<and> direction_label_of OtherDirection = ''control''"
  using assms
  by (simp add: log_record_def get_stats_def dict_values_sum_set dict_get_set_other
      dict_get_set_same direction_label_of_def)

theorem C10_extra_direction_counted_witness:
  "records (log_record log_init (direction_label_of OtherDirection) 7 []) =
     [[(''direction'', PStr ''control''), (''size'', PInt 7)]]
   \<and> downstream_count (get_stats (log_record log_init (direction_label_of OtherDirection) 7 [])) = 0
   \<and> upstream_count (get_stats (log_record log_init (direction_label_of OtherDirection) 7 [])) = 0
   \<and> downstream_bytes (get_stats (log_record log_init (direction_label_of OtherDirection) 7 [])) = 0
   \<and> upstream_bytes (get_stats (log_record log_init (direction_label_of OtherDirection) 7 [])) = 0
   \<and> total_messages (get_stats (log_record log_init (direction_label_of OtherDirection) 7 [])) = 1"
proof -
  have l: "direction_label_of OtherDirection = ''control''"
    by (simp add: direction_label_of_def)
  have z: "get_stats log_init =
      \<lparr> downstream_count = 0, upstream_count = 0, downstream_bytes = 0,
        upstream_bytes = 0, total_messages = 0 \<rparr>"
    by (simp add: get_stats_def log_init_def dict_values_sum_def)
  have r: "records log_init = []"
    by (simp add: log_init_def)
  from C10_extra_direction_counted [of "''control''" log_init 7 "[]"] l z r
  show ?thesis by simp
qed

text \<open>
  C6.  \<open>should_capture_frame\<close> is false when the policy is disabled; otherwise false for
  an audio-class frame when audio capture is off; otherwise false for a text-class frame when
  text capture is off; otherwise true.  It is a function of the policy and the frame only.
\<close>

theorem C6_should_capture_cases:
  "(\<not> enabled cfg \<longrightarrow> \<not> should_capture_frame cfg f)
   \<and> (enabled cfg \<and> isinstance f AUDIO_FRAMES \<and> \<not> enable_audio_capture cfg
        \<longrightarrow> \<not> should_capture_frame cfg f)
   \<and> (enabled cfg \<and> \<not> (isinstance f AUDIO_FRAMES \<and> \<not> enable_audio_capture cfg)
        \<and> isinstance f TEXT_FRAMES \<and> \<not> enable_text_capture cfg
        \<longrightarrow> \<not> should_capture_frame cfg f)
   \<and> (enabled cfg \<and> \<not> (isinstance f AUDIO_FRAMES \<and> \<not> enable_audio_capture cfg)
        \<and> \<not> (isinstance f TEXT_FRAMES \<and> \<not> enable_text_capture cfg)
        \<longrightarrow> should_capture_frame cfg f)"
  by (simp add: should_capture_frame_def)

theorem C6_should_capture_cases_witness:
  "\<not> enabled (default_config\<lparr>enabled := False, enable_audio_capture := True\<rparr>)
   \<and> \<not> should_capture_frame (default_config\<lparr>enabled := False, enable_audio_capture := True\<rparr>)
         (text_frame ''hi'')
   \<and> isinstance (audio_frame []) AUDIO_FRAMES
   \<and> \<not> should_capture_frame default_config (audio_frame [])
   \<and> isinstance (text_frame ''hi'') TEXT_FRAMES
   \<and> \<not> should_capture_frame (default_config\<lparr>enable_text_capture := False\<rparr>) (text_frame ''hi'')
   \<and> should_capture_frame default_config (text_frame ''hi'')"
proof -
  have a: "isinstance (audio_frame []) AUDIO_FRAMES"
    by (simp add: isinstance_def audio_frame_def AUDIO_FRAMES_def)
  have t: "isinstance (text_frame ''hi'') TEXT_FRAMES"
    by (simp add: isinstance_def text_frame_def TEXT_FRAMES_def)
  have na: "\<not> isinstance (text_frame ''hi'') AUDIO_FRAMES"
    by (simp add: isinstance_def text_frame_def AUDIO_FRAMES_def)
  from C6_should_capture_cases [of "default_config\<lparr>enabled := False, enable_audio_capture := True\<rparr>"
        "text_frame ''hi''"]
  have 1: "\<not> should_capture_frame (default_config\<lparr>enabled := False, enable_audio_capture := True\<rparr>)
         (text_frame ''hi'')"
    by (simp add: default_config_def)
  from C6_should_capture_cases [of default_config "audio_frame []"] a
  have 2: "\<not> should_capture_frame default_config (audio_frame [])"
    by (simp add: default_config_def)
  from C6_should_capture_cases [of "default_config\<lparr>enable_text_capture := False\<rparr>" "text_frame ''hi''"] t na
  have 3: "\<not> should_capture_frame (default_config\<lparr>enable_text_capture := False\<rparr>) (text_frame ''hi'')"
    by (simp add: default_config_def)
  from C6_should_capture_cases [of default_config "text_frame ''hi''"] na
  have 4: "should_capture_frame default_config (text_frame ''hi'')"
    by (simp add: default_config_def)
  from 1 2 3 4 a t show ?thesis
    by (simp add: default_config_def)
qed

text \<open>
  C7, as stated: with \<open>truncate_text_at = 5\<close> and the text \<open>hello world\<close> the content is
  the quote, \<open>hell\<close>, the ellipsis and the closing quote.  The code keeps five characters
  of the text, not four.
\<close>

theorem C7_counterexample:
  "extract_content quiet_externals (default_config\<lparr>truncate_text_at := 5\<rparr>) (text_frame ''hello world'')
     \<noteq> Inr (Some ([CHR 0x22] @ ''hell...'' @ [CHR 0x22]))"
  by (simp add: extract_content_def truthy_text_def text_frame_def truncate_at_def slice_to_def)

text \<open>
  C7, amended: with \<open>truncate_text_at = 5\<close> and the text \<open>hello world\<close> the content is
  the quote, the five characters \<open>hello\<close>, the ellipsis \<open>...\<close> and the closing quote.
\<close>

theorem C7_truncates_to_five:
  "extract_content ext (cfg\<lparr>truncate_text_at := 5\<rparr>) (text_frame ''hello world'')
     = Inr (Some ([CHR 0x22] @ ''hello...'' @ [CHR 0x22]))
   \<and> length (slice_to ''hello world'' 5) = 5"
  by (simp add: extract_content_def truthy_text_def text_frame_def truncate_at_def slice_to_def)

theorem C7_truncates_to_five_witness:
  "extract_content quiet_externals (default_config\<lparr>truncate_text_at := 5\<rparr>) (text_frame ''hello world'')
     = Inr (Some (CHR 0x22 # ''hello...'' @ [CHR 0x22]))"
  using C7_truncates_to_five [of quiet_externals default_config] by simp




text \<open>
  What \<open>json.loads\<close> raises outside \<open>(JSONDecodeError, TypeError)\<close> leaves
  \<open>decode_protobuf\<close>: a message payload of 100000 opening brackets raises
  \<open>RecursionError\<close>.  Inside the background task that exception is swallowed and nothing
  is recorded.
\<close>

lemma decode_protobuf_recursion_error:
  "decode_protobuf deep_externals data = Inl RecursionError"
  by (simp add: decode_protobuf_def deep_externals_def quiet_externals_def empty_proto_def
      caught_def error_isinstance_def)

lemma background_task_swallows:
  "(\<forall>e. serialize ext f = Inl e \<longrightarrow> background_serialize_and_log ext L f d = L)
   \<and> (\<forall>payload e. serialize ext f = Inr (Some payload) \<and> decode_protobuf ext payload = Inl e \<longrightarrow>
         background_serialize_and_log ext L f d = L)"
  by (simp add: background_serialize_and_log_def)

lemma background_task_deep: "background_serialize_and_log deep_externals L f d = L"
proof -
  have "serialize deep_externals f = Inr (Some [0x22, 0x00])"
    by (simp add: deep_externals_def)
  with decode_protobuf_recursion_error [of "[0x22, 0x00]"] show ?thesis
    by (simp add: background_serialize_and_log_def)
qed


section \<open>Frame observer: claims\<close>


lemma pow2_pos: "0 < pow2 k"
  by (simp add: pow2_def)

lemma round_half_even_nonneg: "0 \<le> q \<Longrightarrow> 0 \<le> round_half_even q"
proof -
  assume "0 \<le> q"
  then have "0 \<le> \<lfloor>q\<rfloor>" by simp
  then show ?thesis
    by (simp add: round_half_even_def Let_def)
qed

lemma round_to_binary64_nonneg: "0 \<le> x \<Longrightarrow> 0 \<le> round_to_binary64 x"
proof (cases "x = 0")
  case True
  then show ?thesis by (simp add: round_to_binary64_def)
next
  case False
  assume "0 \<le> x"
  then have "0 \<le> x / pow2 (float_exponent x)"
    using pow2_pos [of "float_exponent x"] by simp
  then have "0 \<le> round_half_even (x / pow2 (float_exponent x))"
    by (rule round_half_even_nonneg)
  then have "(0::rat) \<le> of_int (round_half_even (x / pow2 (float_exponent x))) * pow2 (float_exponent x)"
    using pow2_pos [of "float_exponent x"] by simp
  with False show ?thesis by (simp add: round_to_binary64_def)
qed

lemma latency_nonneg: "t \<le> now \<Longrightarrow> 0 \<le> f_mul (f_sub now t) 1000"
proof -
  assume "t \<le> now"
  then have "0 \<le> f_sub now t"
    by (simp add: f_sub_def round_to_binary64_nonneg)
  then have "0 \<le> f_sub now t * 1000" by simp
  then show ?thesis
    by (simp add: f_mul_def round_to_binary64_nonneg)
qed

lemma dict_lookup_set_other: "k' \<noteq> k \<Longrightarrow> dict_lookup (dict_set d k v) k' = dict_lookup d k'"
  by (induction d) auto

lemma on_push_frame_rejected:
  "\<not> accepted (config obs) data \<Longrightarrow> on_push_frame ext now obs data = (obs, None)"
  by (auto simp: accepted_def on_push_frame_def should_capture_frame_def)

lemma on_push_frame_accepted:
  "accepted (config obs) data \<Longrightarrow>
     fst (on_push_frame ext now obs data) =
       (let obs' = update_statistics obs now (class_name (fp_frame data))
        in if (case trace_line ext obs now data of
                 Inl e \<Rightarrow> False
               | Inr line \<Rightarrow> logger_debug ext line = None) \<and> enable_binary_logging (config obs)
           then obs'\<lparr> pending_tasks := pending_tasks obs' @
                      [(fp_frame data, direction_label_of (fp_direction data))] \<rparr>
           else obs')"
  by (auto simp: accepted_def on_push_frame_def Let_def split: option.splits sum.splits)

lemma config_update_statistics: "config (update_statistics obs now ft) = config obs"
  by (simp add: update_statistics_def)

lemma config_on_push_frame: "config (fst (on_push_frame ext now obs data)) = config obs"
proof (cases "accepted (config obs) data")
  case True
  then show ?thesis
    by (simp add: on_push_frame_accepted Let_def config_update_statistics)
next
  case False
  then show ?thesis by (simp add: on_push_frame_rejected)
qed

lemma counts_on_push_frame:
  "dict_values_sum (frame_counts (fst (on_push_frame ext now obs data))) =
     dict_values_sum (frame_counts obs) + (if accepted (config obs) data then 1 else 0)"
proof (cases "accepted (config obs) data")
  case True
  then show ?thesis
    by (simp add: on_push_frame_accepted Let_def update_statistics_def dict_values_sum_set)
next
  case False
  then show ?thesis by (simp add: on_push_frame_rejected)
qed

lemma run_events_Cons:
  "run_events ext obs ((now, data) # evs) = run_events ext (fst (on_push_frame ext now obs data)) evs"
  by (simp add: run_events_def)

lemma run_events_counts:
  "dict_values_sum (frame_counts (run_events ext obs evs)) =
     dict_values_sum (frame_counts obs) + int (length (filter (accepted (config obs)) (map snd evs)))"
proof (induction evs arbitrary: obs)
  case Nil
  show ?case by (simp add: run_events_def)
next
  case (Cons ev evs)
  obtain now data where ev: "ev = (now, data)" by (cases ev)
  show ?case
    unfolding ev run_events_Cons
    by (simp add: Cons.IH counts_on_push_frame config_on_push_frame)
qed

text \<open>
  C4.  An event the capture policy rejects leaves the observer as it was (no count, no
  latency sample, no new timestamp, no task) and raises nothing.  Hence, after any sequence
  of events on a fresh observer, the sum of the frame counts is the number of accepted events.
\<close>

theorem C4_rejected_events_invisible:
  "(\<not> accepted (config obs) data \<longrightarrow> on_push_frame ext now obs data = (obs, None))
   \<and> dict_values_sum (get_frame_counts (run_events ext (observer_init cfg t0) evs)) =
       int (length (filter (accepted cfg) (map snd evs)))"
proof -
  have "dict_values_sum (frame_counts (observer_init cfg t0)) = 0"
    by (simp add: observer_init_def dict_values_sum_def)
  moreover have "config (observer_init cfg t0) = cfg"
    by (simp add: observer_init_def)
  ultimately show ?thesis
    using run_events_counts [of ext "observer_init cfg t0" evs]
    by (simp add: on_push_frame_rejected get_frame_counts_def)
qed


theorem C4_rejected_events_invisible_witness:
  "\<not> accepted default_config (pushed (audio_frame []) DOWNSTREAM)
   \<and> on_push_frame quiet_externals 1 (observer_init default_config 0) (pushed (audio_frame []) DOWNSTREAM)
       = (observer_init default_config 0, None)
   \<and> dict_values_sum (get_frame_counts (run_events quiet_externals (observer_init default_config 0)
         [(1, pushed (text_frame ''a'') DOWNSTREAM), (2, pushed (audio_frame []) DOWNSTREAM),
          (3, pushed (text_frame ''b'') UPSTREAM)])) = 2"
proof -
  have rej: "\<not> accepted default_config (pushed (audio_frame []) DOWNSTREAM)"
    by (simp add: accepted_def should_capture_frame_def default_config_def pushed_def
        isinstance_def audio_frame_def AUDIO_FRAMES_def)
  have acc: "accepted default_config (pushed (text_frame t) d)" for t d
    by (simp add: accepted_def should_capture_frame_def default_config_def pushed_def
        isinstance_def text_frame_def AUDIO_FRAMES_def TEXT_FRAMES_def)
  have cfg: "config (observer_init default_config 0) = default_config"
    by (simp add: observer_init_def)
  from C4_rejected_events_invisible [of "observer_init default_config 0"
      "pushed (audio_frame []) DOWNSTREAM" quiet_externals 1 default_config 0
      "[(1, pushed (text_frame ''a'') DOWNSTREAM), (2, pushed (audio_frame []) DOWNSTREAM),
        (3, pushed (text_frame ''b'') UPSTREAM)]"]
    rej acc cfg
  show ?thesis by simp
qed

lemma latencies_update_statistics:
  "latencies (update_statistics obs now ft) =
     (case last_frame_time obs of
        None \<Rightarrow> latencies obs
      | Some t \<Rightarrow>
          if enable_timing_metrics (config obs)
          then append_latency (latencies obs) ft (f_mul (f_sub now t) 1000) else latencies obs)"
  by (simp add: update_statistics_def latency_ms_of_def split: option.splits)

lemma latencies_on_push_frame:
  "accepted (config obs) data \<Longrightarrow>
     latencies (fst (on_push_frame ext now obs data)) =
       latencies (update_statistics obs now (class_name (fp_frame data)))"
  by (simp add: on_push_frame_accepted Let_def)

lemma last_frame_time_on_push_frame:
  "accepted (config obs) data \<Longrightarrow> last_frame_time (fst (on_push_frame ext now obs data)) = Some now"
  by (simp add: on_push_frame_accepted Let_def update_statistics_def)

text \<open>
  C5, amended: on a fresh or reset observer there is no previous timestamp, and an accepted
  event without a previous timestamp records no latency.  With a previous timestamp \<open>t\<close> and
  timing metrics on, the sample \<open>(now - t) * 1000\<close> is appended to the sequence of the
  event's own category and every other category is untouched; the sample is non-negative
  when the clock did not step back (\<open>t \<le> now\<close>).  The timestamp becomes \<open>now\<close> on every
  accepted event, with timing metrics on or off.
\<close>

theorem C5_latency_bookkeeping:
  assumes "accepted (config obs) data"
  shows "last_frame_time (fst (on_push_frame ext now obs data)) = Some now
   \<and> (last_frame_time obs = None \<longrightarrow>
        latencies (fst (on_push_frame ext now obs data)) = latencies obs)
   \<and> (\<not> enable_timing_metrics (config obs) \<longrightarrow>
        latencies (fst (on_push_frame ext now obs data)) = latencies obs)
   \<and> (\<forall>t. last_frame_time obs = Some t \<and> enable_timing_metrics (config obs) \<longrightarrow>
        dict_get (latencies (fst (on_push_frame ext now obs data))) (class_name (fp_frame data)) [] =
          dict_get (latencies obs) (class_name (fp_frame data)) [] @ [f_mul (f_sub now t) 1000]
        \<and> (\<forall>k. k \<noteq> class_name (fp_frame data) \<longrightarrow>
              dict_lookup (latencies (fst (on_push_frame ext now obs data))) k =
                dict_lookup (latencies obs) k)
        \<and> (t \<le> now \<longrightarrow> 0 \<le> f_mul (f_sub now t) 1000))
   \<and> last_frame_time (observer_init cfg t0) = None
   \<and> last_frame_time (reset obs t1) = None"
proof -
  have 1: "last_frame_time (fst (on_push_frame ext now obs data)) = Some now"
    using assms by (rule last_frame_time_on_push_frame)
  have 2: "last_frame_time obs = None \<longrightarrow>
        latencies (fst (on_push_frame ext now obs data)) = latencies obs"
    using assms by (simp add: latencies_on_push_frame latencies_update_statistics)
  have 3: "\<not> enable_timing_metrics (config obs) \<longrightarrow>
        latencies (fst (on_push_frame ext now obs data)) = latencies obs"
    using assms by (simp add: latencies_on_push_frame latencies_update_statistics split: option.splits)
  have 4: "\<forall>t. last_frame_time obs = Some t \<and> enable_timing_metrics (config obs) \<longrightarrow>
        dict_get (latencies (fst (on_push_frame ext now obs data))) (class_name (fp_frame data)) [] =
          dict_get (latencies obs) (class_name (fp_frame data)) [] @ [f_mul (f_sub now t) 1000]
        \<and> (\<forall>k. k \<noteq> class_name (fp_frame data) \<longrightarrow>
              dict_lookup (latencies (fst (on_push_frame ext now obs data))) k =
                dict_lookup (latencies obs) k)
        \<and> (t \<le> now \<longrightarrow> 0 \<le> f_mul (f_sub now t) 1000)"
    using assms
    by (simp add: latencies_on_push_frame latencies_update_statistics append_latency_def
        dict_get_set_same dict_lookup_set_other latency_nonneg)
  have 5: "last_frame_time (observer_init cfg t0) = None"
    by (simp add: observer_init_def)
  have 6: "last_frame_time (reset obs t1) = None"
    by (simp add: reset_def)
  from 1 2 3 4 5 6 show ?thesis by blast
qed


theorem C5_latency_bookkeeping_witness:
  "accepted (config (observer_init default_config 0)) (pushed (text_frame ''a'') DOWNSTREAM)
   \<and> last_frame_time (fst (on_push_frame quiet_externals 1 (observer_init default_config 0)
         (pushed (text_frame ''a'') DOWNSTREAM))) = Some 1
   \<and> latencies (fst (on_push_frame quiet_externals 1 (observer_init default_config 0)
         (pushed (text_frame ''a'') DOWNSTREAM))) = []
   \<and> dict_get (latencies (fst (on_push_frame quiet_externals 2
         (fst (on_push_frame quiet_externals 1 (observer_init default_config 0)
            (pushed (text_frame ''a'') DOWNSTREAM)))
         (pushed (text_frame ''b'') DOWNSTREAM)))) ''TextFrame'' [] = [f_mul (f_sub 2 1) 1000]
   \<and> 0 \<le> f_mul (f_sub 2 1) 1000"
proof -
  let ?o0 = "observer_init default_config 0"
  let ?e1 = "pushed (text_frame ''a'') DOWNSTREAM"
  let ?e2 = "pushed (text_frame ''b'') DOWNSTREAM"
  let ?o1 = "fst (on_push_frame quiet_externals 1 ?o0 ?e1)"
  have acc: "accepted default_config (pushed (text_frame t) d)" for t d
    by (simp add: accepted_def should_capture_frame_def default_config_def pushed_def
        isinstance_def text_frame_def AUDIO_FRAMES_def TEXT_FRAMES_def)
  have c0: "config ?o0 = default_config"
    by (simp add: observer_init_def)
  have c1: "config ?o1 = default_config"
    by (simp add: config_on_push_frame c0)
  have a0: "accepted (config ?o0) ?e1" by (simp add: c0 acc)
  have a1: "accepted (config ?o1) ?e2" by (simp add: c1 acc)
  have l0: "latencies ?o0 = []" "last_frame_time ?o0 = None"
    by (simp_all add: observer_init_def)
  have tm: "enable_timing_metrics default_config"
    by (simp add: default_config_def)
  have cn: "class_name (fp_frame ?e2) = ''TextFrame''"
    by (simp add: pushed_def text_frame_def)
  from C5_latency_bookkeeping [OF a0, of quiet_externals 1] l0
  have s1: "last_frame_time ?o1 = Some 1" "latencies ?o1 = []"
    by simp_all
  from C5_latency_bookkeeping [OF a1, of quiet_externals 2] s1 c1 tm cn
  have s2: "dict_get (latencies (fst (on_push_frame quiet_externals 2 ?o1 ?e2))) ''TextFrame'' [] =
      [f_mul (f_sub 2 1) 1000]" "0 \<le> f_mul (f_sub 2 1) 1000"
    by simp_all
  from a0 s1 s2 show ?thesis by simp
qed

lemma float_exponent_m1: "float_exponent (- 1) = - 52"
  by code_simp

lemma round_half_even_m1: "round_half_even (- 1 / pow2 (- 52)) = - 4503599627370496"
  by code_simp

lemma round_to_binary64_m1: "round_to_binary64 (- 1) = - 1"
  unfolding round_to_binary64_def float_exponent_m1 round_half_even_m1
  by (simp add: pow2_def)

lemma float_exponent_m1000: "float_exponent (- 1000) = - 43"
  by code_simp

lemma round_half_even_m1000: "round_half_even (- 1000 / pow2 (- 43)) = - 8796093022208000"
  by code_simp

lemma round_to_binary64_m1000: "round_to_binary64 (- 1000) = - 1000"
  unfolding round_to_binary64_def float_exponent_m1000 round_half_even_m1000
  by (simp add: pow2_def)

lemma latency_clock_back: "f_mul (f_sub 1 2) 1000 = - 1000"
  by (simp add: f_mul_def f_sub_def round_to_binary64_m1 round_to_binary64_m1000)

text \<open>
  C5, as stated: every accepted event after the first records a non-negative latency.
  \<open>time.time()\<close> is the wall clock; when it steps back between two accepted events
  (here from 2 to 1) the recorded sample is negative.
\<close>

theorem C5_counterexample:
  "dict_get (latencies (run_events quiet_externals (observer_init default_config 0)
       [(2, pushed (text_frame ''a'') DOWNSTREAM), (1, pushed (text_frame ''b'') DOWNSTREAM)]))
     ''TextFrame'' [] = [- 1000]"
proof -
  let ?o0 = "observer_init default_config 0"
  let ?e1 = "pushed (text_frame ''a'') DOWNSTREAM"
  let ?e2 = "pushed (text_frame ''b'') DOWNSTREAM"
  let ?o1 = "fst (on_push_frame quiet_externals 2 ?o0 ?e1)"
  have acc: "accepted default_config (pushed (text_frame t) d)" for t d
    by (simp add: accepted_def should_capture_frame_def default_config_def pushed_def
        isinstance_def text_frame_def AUDIO_FRAMES_def TEXT_FRAMES_def)
  have c0: "config ?o0 = default_config"
    by (simp add: observer_init_def)
  have c1: "config ?o1 = default_config"
    by (simp add: config_on_push_frame c0)
  have tm: "enable_timing_metrics default_config"
    by (simp add: default_config_def)
  have cn: "class_name (fp_frame (pushed (text_frame t) d)) = ''TextFrame''" for t d
    by (simp add: pushed_def text_frame_def)
  have l1: "latencies ?o1 = []"
    by (simp add: latencies_on_push_frame latencies_update_statistics c0 acc observer_init_def)
  have t1: "last_frame_time ?o1 = Some 2"
    by (simp add: last_frame_time_on_push_frame c0 acc)
  have "latencies (fst (on_push_frame quiet_externals 1 ?o1 ?e2)) = [(''TextFrame'', [- 1000])]"
    by (simp add: latencies_on_push_frame latencies_update_statistics c1 acc l1 t1 tm cn
        append_latency_def latency_clock_back)
  then show ?thesis
    by (simp add: run_events_def)
qed

lemma on_push_frame_outcome:
  "snd (on_push_frame ext now obs data) =
     (if accepted (config obs) data
      then (case trace_line ext obs now data of
              Inl e \<Rightarrow> Some e
            | Inr line \<Rightarrow> logger_debug ext line)
      else None)"
  by (auto simp: on_push_frame_def accepted_def should_capture_frame_def Let_def
      split: option.splits sum.splits)

lemma trace_line_raises:
  "trace_line ext obs now data = Inl e \<longleftrightarrow> extract_content ext (config obs) (fp_frame data) = Inl e"
  by (simp add: trace_line_def Let_def split: sum.splits)

lemma trace_line_content:
  assumes "extract_content ext (config obs) (fp_frame data) = Inr (Some c)" and "c \<noteq> []"
  shows "\<exists>pre. trace_line ext obs now data = Inr (pre @ c)"
proof -
  have "\<exists>pre. (if b then l0 @ x else l0) @ [CHR 0x0A] @ rjust 26 [] @ c = pre @ c" for b l0 x
    by (metis append_assoc)
  with assms show ?thesis
    by (simp add: trace_line_def Let_def)
qed

lemma str_contains_append: "str_contains ys p \<Longrightarrow> str_contains (xs @ ys) p"
  by (induction xs) simp_all

lemma accepted_default:
  "accepted (config (observer_init default_config t0)) (pushed (text_frame t) d)"
  "accepted (config (observer_init default_config t0)) (pushed (message_frame m) d)"
  by (simp_all add: accepted_def should_capture_frame_def default_config_def pushed_def
      isinstance_def text_frame_def message_frame_def AUDIO_FRAMES_def TEXT_FRAMES_def
      observer_init_def)

text \<open>
  C1.  \<open>on_push_frame\<close> must never let an exception reach its caller.  The code has no
  handler around the hook, and two inputs make it raise with the default policy.  A text
  frame with the text \<open></b>\<close>: the text goes unescaped into the markup line and
  \<open>logger.opt(ansi=True).debug\<close> raises \<open>ValueError\<close>.  A message frame whose dict is
  nested deeper than the recursion limit: \<open>json.dumps\<close> raises \<open>RecursionError\<close>, which
  \<open>except (TypeError, ValueError)\<close> does not catch.  In both the exception leaves the hook
  after the statistics were updated, and no background task is scheduled.
\<close>

theorem C1_hook_raises:
  "on_push_frame raising_externals 1 (observer_init default_config 0)
       (pushed (text_frame ''</b>'') DOWNSTREAM) =
     (update_statistics (observer_init default_config 0) 1 ''TextFrame'', Some ValueError)
   \<and> on_push_frame deep_externals 1 (observer_init default_config 0)
       (pushed (message_frame deep_dict) DOWNSTREAM) =
     (update_statistics (observer_init default_config 0) 1 ''OutputTransportMessageFrame'',
      Some RecursionError)"
proof -
  let ?o0 = "observer_init default_config 0"
  have x1: "extract_content raising_externals (config ?o0) (text_frame ''</b>'') =
      Inr (Some (CHR 0x22 # ''</b>'' @ [CHR 0x22]))"
    by (simp add: extract_content_def truthy_text_def text_frame_def truncate_at_def
        observer_init_def default_config_def)
  then obtain pre where t1:
    "trace_line raising_externals ?o0 1 (pushed (text_frame ''</b>'') DOWNSTREAM) =
       Inr (pre @ CHR 0x22 # ''</b>'' @ [CHR 0x22])"
    using trace_line_content [of raising_externals ?o0 "pushed (text_frame ''</b>'') DOWNSTREAM"]
    by (auto simp: pushed_def)
  have "str_contains (CHR 0x22 # ''</b>'' @ [CHR 0x22]) ''</b>''"
    by simp
  then have l1: "logger_debug raising_externals (pre @ CHR 0x22 # ''</b>'' @ [CHR 0x22]) =
      Some ValueError"
    by (simp add: raising_externals_def str_contains_append)
  have x2: "extract_content deep_externals (config ?o0) (message_frame deep_dict) = Inl RecursionError"
    by (simp add: extract_content_def truthy_text_def message_frame_def isinstance_def
        deep_externals_def caught_def error_isinstance_def)
  then have t2: "trace_line deep_externals ?o0 1 (pushed (message_frame deep_dict) DOWNSTREAM) =
      Inl RecursionError"
    by (simp add: trace_line_raises pushed_def)
  have a1: "accepted (config ?o0) (pushed (text_frame ''</b>'') DOWNSTREAM)"
    by (rule accepted_default)
  have a2: "accepted (config ?o0) (pushed (message_frame deep_dict) DOWNSTREAM)"
    by (rule accepted_default)
  have 1: "on_push_frame raising_externals 1 ?o0 (pushed (text_frame ''</b>'') DOWNSTREAM) =
     (update_statistics ?o0 1 ''TextFrame'', Some ValueError)"
    using a1 t1 l1
    by (simp add: on_push_frame_def accepted_def Let_def pushed_def text_frame_def)
  have 2: "on_push_frame deep_externals 1 ?o0 (pushed (message_frame deep_dict) DOWNSTREAM) =
     (update_statistics ?o0 1 ''OutputTransportMessageFrame'', Some RecursionError)"
    using a2 t2
    by (simp add: on_push_frame_def accepted_def Let_def pushed_def message_frame_def)
  from 1 2 show ?thesis by simp
qed


section \<open>Latency statistics: claims\<close>


lemma dict_lookup_set_same: "dict_lookup (dict_set d k v) k = Some v"
  by (induction d) auto

lemma dict_lookup_absent: "k \<notin> fst ` set d \<Longrightarrow> dict_lookup d k = None"
  by (induction d) auto

lemma latency_fold_lookup:
  "distinct (map fst d) \<Longrightarrow>
     dict_lookup
       (foldl (\<lambda>stats (ft, lats).
                 case lats of [] \<Rightarrow> stats | x # xs \<Rightarrow> dict_set stats ft (stats_entry x xs)) acc d) k =
     (case dict_lookup d k of
        Some (x # xs) \<Rightarrow> Some (stats_entry x xs)
      | _ \<Rightarrow> dict_lookup acc k)"
proof (induction d arbitrary: acc)
  case Nil
  show ?case by simp
next
  case (Cons p d)
  obtain ft lats where p: "p = (ft, lats)" by (cases p)
  from Cons.prems p have dist: "distinct (map fst d)" and notin: "ft \<notin> fst ` set d"
    by auto
  show ?case
  proof (cases "ft = k")
    case True
    with notin have "dict_lookup d k = None"
      by (simp add: dict_lookup_absent)
    with True p show ?thesis
      by (simp add: Cons.IH [OF dist] dict_lookup_set_same split: list.splits)
  next
    case False
    then have "k \<noteq> ft" by auto
    with p show ?thesis
      by (simp add: Cons.IH [OF dist] dict_lookup_set_other split: list.splits option.splits)
  qed
qed

lemma py_min_foldl_le: "foldl (\<lambda>m y. if y < m then y else m) x xs \<le> (x::rat)"
proof (induction xs arbitrary: x)
  case Nil
  show ?case by simp
next
  case (Cons a xs)
  have "foldl (\<lambda>m y. if y < m then y else m) (if a < x then a else x) xs \<le> (if a < x then a else x)"
    by (rule Cons.IH)
  then show ?case by (auto split: if_splits)
qed

lemma py_min_lower: "y \<in> set (x # xs) \<Longrightarrow> py_min x xs \<le> y"
  unfolding py_min_def
proof (induction xs arbitrary: x)
  case Nil
  then show ?case by simp
next
  case (Cons a xs)
  let ?m = "if a < x then a else x"
  have le: "foldl (\<lambda>m y. if y < m then y else m) ?m xs \<le> ?m"
    by (rule py_min_foldl_le)
  from Cons.prems consider "y = x" | "y = a" | "y \<in> set xs" by auto
  then show ?case
  proof cases
    case 1
    with le show ?thesis by (auto split: if_splits)
  next
    case 2
    with le show ?thesis by (auto split: if_splits)
  next
    case 3
    then have "y \<in> set (?m # xs)" by simp
    from Cons.IH [OF this] show ?thesis by simp
  qed
qed

lemma py_max_foldl_ge: "(x::rat) \<le> foldl (\<lambda>m y. if m < y then y else m) x xs"
proof (induction xs arbitrary: x)
  case Nil
  show ?case by simp
next
  case (Cons a xs)
  have "(if x < a then a else x) \<le> foldl (\<lambda>m y. if m < y then y else m) (if x < a then a else x) xs"
    by (rule Cons.IH)
  then show ?case by (auto split: if_splits)
qed

lemma py_max_upper: "y \<in> set (x # xs) \<Longrightarrow> y \<le> py_max x xs"
  unfolding py_max_def
proof (induction xs arbitrary: x)
  case Nil
  then show ?case by simp
next
  case (Cons a xs)
  let ?m = "if x < a then a else x"
  have ge: "?m \<le> foldl (\<lambda>m y. if m < y then y else m) ?m xs"
    by (rule py_max_foldl_ge)
  from Cons.prems consider "y = x" | "y = a" | "y \<in> set xs" by auto
  then show ?case
  proof cases
    case 1
    with ge show ?thesis by (auto split: if_splits)
  next
    case 2
    with ge show ?thesis by (auto split: if_splits)
  next
    case 3
    then have "y \<in> set (?m # xs)" by simp
    from Cons.IH [OF this] show ?thesis by simp
  qed
qed

lemma sum_list_lower:
  "(\<And>y. y \<in> set ys \<Longrightarrow> m \<le> y) \<Longrightarrow> of_nat (length ys) * m \<le> sum_list (ys::rat list)"
proof (induction ys)
  case Nil
  show ?case by simp
next
  case (Cons a ys)
  have "m \<le> a" by (rule Cons.prems) simp
  moreover have "of_nat (length ys) * m \<le> sum_list ys"
    by (rule Cons.IH) (simp add: Cons.prems)
  ultimately show ?case by (simp add: algebra_simps add_mono)
qed

lemma sum_list_upper:
  "(\<And>y. y \<in> set ys \<Longrightarrow> y \<le> m) \<Longrightarrow> sum_list (ys::rat list) \<le> of_nat (length ys) * m"
proof (induction ys)
  case Nil
  show ?case by simp
next
  case (Cons a ys)
  have "a \<le> m" by (rule Cons.prems) simp
  moreover have "sum_list ys \<le> of_nat (length ys) * m"
    by (rule Cons.IH) (simp add: Cons.prems)
  ultimately show ?case by (simp add: algebra_simps add_mono)
qed

lemma mean_between:
  assumes "ys \<noteq> []" and lo: "\<And>y. y \<in> set ys \<Longrightarrow> a \<le> y" and hi: "\<And>y. y \<in> set ys \<Longrightarrow> y \<le> b"
  shows "a \<le> sum_list ys / of_nat (length ys) \<and> sum_list ys / of_nat (length ys) \<le> (b::rat)"
proof -
  from assms(1) have n: "(0::rat) < of_nat (length ys)" by simp
  from sum_list_lower [of ys a] lo have "of_nat (length ys) * a \<le> sum_list ys" by blast
  with n have 1: "a \<le> sum_list ys / of_nat (length ys)"
    by (simp add: pos_le_divide_eq mult.commute)
  from sum_list_upper [of ys b] hi have "sum_list ys \<le> of_nat (length ys) * b" by blast
  with n have 2: "sum_list ys / of_nat (length ys) \<le> b"
    by (simp add: pos_divide_le_eq mult.commute)
  from 1 2 show ?thesis by simp
qed


text \<open>Rounding to binary64 is odd and monotone.\<close>

lemma pow2_powi: "pow2 k = 2 powi k"
  by (simp add: pow2_def power_int_def inverse_eq_divide power_one_over)

lemma round_half_even_cases:
  "round_half_even q = \<lfloor>q\<rfloor> \<and> q - of_int \<lfloor>q\<rfloor> \<le> 1 / 2
   \<or> round_half_even q = \<lfloor>q\<rfloor> + 1 \<and> 1 / 2 \<le> q - of_int \<lfloor>q\<rfloor>"
  by (simp add: round_half_even_def Let_def)

lemma round_half_even_near:
  "q - 1 / 2 \<le> of_int (round_half_even q) \<and> of_int (round_half_even q) \<le> q + 1 / 2"
proof -
  have 1: "of_int \<lfloor>q\<rfloor> \<le> q" by (rule of_int_floor_le)
  have 2: "q < of_int \<lfloor>q\<rfloor> + 1" by linarith
  from round_half_even_cases [of q] show ?thesis
  proof
    assume a: "round_half_even q = \<lfloor>q\<rfloor> \<and> q - of_int \<lfloor>q\<rfloor> \<le> 1 / 2"
    then have e: "(of_int (round_half_even q) :: rat) = of_int \<lfloor>q\<rfloor>" by simp
    from a have b: "q - of_int \<lfloor>q\<rfloor> \<le> 1 / 2" by blast
    from 1 2 b show ?thesis unfolding e by linarith
  next
    assume a: "round_half_even q = \<lfloor>q\<rfloor> + 1 \<and> 1 / 2 \<le> q - of_int \<lfloor>q\<rfloor>"
    then have e: "(of_int (round_half_even q) :: rat) = of_int \<lfloor>q\<rfloor> + 1" by simp
    from a have b: "1 / 2 \<le> q - of_int \<lfloor>q\<rfloor>" by blast
    from 1 2 b show ?thesis unfolding e by linarith
  qed
qed

lemma round_half_even_mono:
  assumes "q \<le> q'"
  shows "round_half_even q \<le> round_half_even q'"
proof (rule ccontr)
  assume "\<not> round_half_even q \<le> round_half_even q'"
  then have "round_half_even q' + 1 \<le> round_half_even q" by simp
  then have "(of_int (round_half_even q') :: rat) + 1 \<le> of_int (round_half_even q)"
    by (metis of_int_1 of_int_add of_int_le_iff)
  moreover from round_half_even_near [of q] have "of_int (round_half_even q) \<le> q + 1 / 2"
    by blast
  moreover from round_half_even_near [of q'] have "q' - 1 / 2 \<le> of_int (round_half_even q')"
    by blast
  ultimately have eq: "q = q'" using assms by linarith
  with \<open>\<not> round_half_even q \<le> round_half_even q'\<close> show False by simp
qed

lemma round_half_even_of_int: "round_half_even (of_int n) = n"
  by (simp add: round_half_even_def)

lemma round_half_even_uminus: "round_half_even (- q) = - round_half_even q"
proof (cases "q = of_int \<lfloor>q\<rfloor>")
  case True
  then obtain n where "q = of_int n" by blast
  then have "round_half_even q = n" "round_half_even (- q) = - n"
    using round_half_even_of_int [of n] round_half_even_of_int [of "- n"] by simp_all
  then show ?thesis by simp
next
  case False
  then have fl: "\<lfloor>- q\<rfloor> = - \<lfloor>q\<rfloor> - 1"
    by (metis ceiling_altdef ceiling_def add_diff_cancel_right' minus_diff_eq uminus_add_conv_diff minus_minus)
  have lt: "of_int \<lfloor>q\<rfloor> < q" using False
    by (metis of_int_floor_le order_le_less)
  show ?thesis
    unfolding round_half_even_def Let_def fl
    using lt by (auto split: if_splits) (linarith+)?
qed


lemma bit_length_bounds:
  "0 < n \<Longrightarrow> 1 \<le> bit_length n \<and> 2 ^ nat (bit_length n - 1) \<le> n \<and> n < 2 ^ nat (bit_length n)"
proof (induction n rule: bit_length.induct)
  case (1 n)
  show ?case
  proof (cases "n = 1")
    case True
    have "bit_length 1 = 1"
      by (simp add: bit_length.simps [of 1] bit_length.simps [of 0])
    with True show ?thesis by simp
  next
    case False
    with "1.prems" have m: "0 < n div 2" by simp
    from "1.prems" have "\<not> n \<le> 0" by simp
    from "1.IH" [OF this m]
    have ih: "1 \<le> bit_length (n div 2)" "2 ^ nat (bit_length (n div 2) - 1) \<le> n div 2"
      "n div 2 < 2 ^ nat (bit_length (n div 2))"
      by simp_all
    have bl: "bit_length n = 1 + bit_length (n div 2)"
      using "1.prems" by (simp add: bit_length.simps [of n])
    from ih(1) have n1: "nat (bit_length (n div 2)) = Suc (nat (bit_length (n div 2) - 1))"
      by simp
    from ih(1) have n2: "nat (1 + bit_length (n div 2)) = Suc (nat (bit_length (n div 2)))"
      by simp
    have lo: "2 ^ nat (bit_length (n div 2)) \<le> n"
    proof -
      have "(2::int) ^ nat (bit_length (n div 2)) = 2 * 2 ^ nat (bit_length (n div 2) - 1)"
        by (simp add: n1)
      also have "\<dots> \<le> 2 * (n div 2)" using ih(2) by simp
      also have "\<dots> \<le> n" by simp
      finally show ?thesis .
    qed
    have hi: "n < 2 ^ nat (1 + bit_length (n div 2))"
    proof -
      have "n < 2 * (n div 2 + 1)" by presburger
      also have "\<dots> \<le> 2 * 2 ^ nat (bit_length (n div 2))" using ih(3) by simp
      also have "\<dots> = 2 ^ nat (1 + bit_length (n div 2))" by (simp add: n2)
      finally show ?thesis .
    qed
    from ih(1) lo hi show ?thesis
      by (simp add: bl)
  qed
qed

lemma bit_length_bounds_rat:
  assumes "0 < n"
  shows "(2::rat) powi (bit_length n - 1) \<le> of_int n" and "of_int n < (2::rat) powi (bit_length n)"
proof -
  from bit_length_bounds [OF assms]
  have b: "1 \<le> bit_length n" "2 ^ nat (bit_length n - 1) \<le> n" "n < 2 ^ nat (bit_length n)"
    by simp_all
  have "(2::rat) powi (bit_length n - 1) = of_int (2 ^ nat (bit_length n - 1))"
    using b(1) by (simp add: power_int_def)
  also have "\<dots> \<le> of_int n" using b(2) by (simp only: of_int_le_iff)
  finally show "(2::rat) powi (bit_length n - 1) \<le> of_int n" .
  have "(of_int n :: rat) < of_int (2 ^ nat (bit_length n))"
    using b(3) by (simp only: of_int_less_iff)
  also have "\<dots> = (2::rat) powi (bit_length n)"
    using b(1) by (simp add: power_int_def)
  finally show "of_int n < (2::rat) powi (bit_length n)" .
qed


lemma powi_two_pos: "(0::rat) < 2 powi k"
  by (simp add: zero_less_power_int)

lemma powi_two_add: "(2::rat) powi (m + n) = 2 powi m * 2 powi n"
  by (simp add: power_int_add)

lemma float_exponent_bounds:
  assumes "x \<noteq> 0"
  shows "(2::rat) powi (float_exponent x + 52) \<le> \<bar>x\<bar>" and "\<bar>x\<bar> < (2::rat) powi (float_exponent x + 53)"
proof -
  obtain p q where pq: "quotient_of \<bar>x\<bar> = (p, q)" by (cases "quotient_of \<bar>x\<bar>")
  define a where "a = bit_length p"
  define b where "b = bit_length q"
  define e0 where "e0 = a - b - 53"
  from pq have q: "0 < q" by (rule quotient_of_denom_pos)
  from pq have xq: "\<bar>x\<bar> = of_int p / of_int q" by (rule quotient_of_div)
  from assms have xpos: "0 < \<bar>x\<bar>" by simp
  from q have qr: "(0::rat) < of_int q" by simp
  from xq qr have xp: "\<bar>x\<bar> * of_int q = of_int p" by simp
  from xpos qr have "0 < \<bar>x\<bar> * of_int q" by simp
  with xp have p: "0 < p" by simp
  note P = bit_length_bounds_rat [OF p, folded a_def]
  note Q = bit_length_bounds_rat [OF q, folded b_def]
  have up: "\<bar>x\<bar> < 2 powi (e0 + 54)"
  proof -
    have "\<bar>x\<bar> * 2 powi (b - 1) \<le> \<bar>x\<bar> * of_int q"
      using Q(1) xpos by simp
    also have "\<dots> < 2 powi a" using xp P(2) by simp
    also have "\<dots> = (2::rat) powi (e0 + 54) * 2 powi (b - 1)"
      by (simp add: powi_two_add [symmetric] e0_def)
    finally show ?thesis using powi_two_pos [of "b - 1"] by simp
  qed
  have lo: "2 powi (e0 + 52) < \<bar>x\<bar>"
  proof -
    have "(2::rat) powi (e0 + 52) * 2 powi b = 2 powi (a - 1)"
      by (simp add: powi_two_add [symmetric] e0_def)
    also have "\<dots> \<le> \<bar>x\<bar> * of_int q" using xp P(1) by simp
    also have "\<dots> < \<bar>x\<bar> * 2 powi b" using Q(2) xpos by simp
    finally show ?thesis using powi_two_pos [of b] by simp
  qed
  have fe: "float_exponent x = (if \<bar>x\<bar> / pow2 e0 < 2 ^ 53 then e0 else e0 + 1)"
    by (simp add: float_exponent_def pq a_def b_def e0_def Let_def)
  have split: "(\<bar>x\<bar> / pow2 e0 < 2 ^ 53) = (\<bar>x\<bar> < 2 powi (e0 + 53))"
  proof -
    have "(2::rat) powi (e0 + 53) = 2 powi e0 * 2 ^ 53"
      by (simp add: powi_two_add)
    then show ?thesis
      using powi_two_pos [of e0] by (simp add: pow2_powi pos_divide_less_eq mult.commute)
  qed
  show "(2::rat) powi (float_exponent x + 52) \<le> \<bar>x\<bar>"
  proof (cases "\<bar>x\<bar> < 2 powi (e0 + 53)")
    case True
    with fe split lo show ?thesis by simp
  next
    case False
    then have "float_exponent x = e0 + 1" using fe split by simp
    moreover have "e0 + 1 + 52 = e0 + 53" by simp
    ultimately show ?thesis using False by (simp add: add.commute not_less)
  qed
  show "\<bar>x\<bar> < (2::rat) powi (float_exponent x + 53)"
  proof (cases "\<bar>x\<bar> < 2 powi (e0 + 53)")
    case True
    with fe split show ?thesis by simp
  next
    case False
    then have "float_exponent x = e0 + 1" using fe split by simp
    moreover have "e0 + 1 + 53 = e0 + 54" by simp
    ultimately show ?thesis using up by (simp add: add.commute)
  qed
qed


lemma round_to_binary64_pos_mono:
  assumes "0 < x" and "x \<le> y"
  shows "round_to_binary64 x \<le> round_to_binary64 y"
proof -
  from assms have x0: "x \<noteq> 0" and y0: "y \<noteq> 0" and ypos: "0 < y" by simp_all
  define ex where "ex = float_exponent x"
  define ey where "ey = float_exponent y"
  from float_exponent_bounds [OF x0] assms(1)
  have bx: "2 powi (ex + 52) \<le> x" "x < 2 powi (ex + 53)" by (simp_all add: ex_def)
  from float_exponent_bounds [OF y0] ypos
  have by': "2 powi (ey + 52) \<le> y" "y < 2 powi (ey + 53)" by (simp_all add: ey_def)
  have px: "(0::rat) < pow2 ex" and py: "(0::rat) < pow2 ey" by (simp_all add: pow2_pos)
  have Rx: "round_to_binary64 x = of_int (round_half_even (x / pow2 ex)) * pow2 ex"
    using x0 by (simp add: round_to_binary64_def ex_def)
  have Ry: "round_to_binary64 y = of_int (round_half_even (y / pow2 ey)) * pow2 ey"
    using y0 by (simp add: round_to_binary64_def ey_def)
  have le: "ex \<le> ey"
  proof (rule ccontr)
    assume "\<not> ex \<le> ey"
    then have "ey + 53 \<le> ex + 52" by simp
    then have "(2::rat) powi (ey + 53) \<le> 2 powi (ex + 52)"
      by (rule power_int_increasing) simp
    with bx(1) assms(2) by'(2) show False by linarith
  qed
  show ?thesis
  proof (cases "ex = ey")
    case True
    from assms(2) py have "x / pow2 ey \<le> y / pow2 ey"
      by (simp add: divide_right_mono)
    then have "round_half_even (x / pow2 ey) \<le> round_half_even (y / pow2 ey)"
      by (rule round_half_even_mono)
    then have "(of_int (round_half_even (x / pow2 ey)) :: rat) \<le> of_int (round_half_even (y / pow2 ey))"
      by simp
    with py show ?thesis
      unfolding Rx Ry True by (simp add: mult_right_mono)
  next
    case False
    with le have lt: "ex + 53 \<le> ey + 52" by simp
    have "x / pow2 ex \<le> of_int (2 ^ 53)"
    proof -
      have "(2::rat) powi (ex + 53) = 2 ^ 53 * pow2 ex"
        by (simp add: powi_two_add pow2_powi)
      with bx(2) px show ?thesis
        by (simp add: pos_divide_le_eq)
    qed
    then have "round_half_even (x / pow2 ex) \<le> round_half_even (of_int (2 ^ 53))"
      by (rule round_half_even_mono)
    then have "round_half_even (x / pow2 ex) \<le> 2 ^ 53"
      by (simp only: round_half_even_of_int)
    then have "(of_int (round_half_even (x / pow2 ex)) :: rat) \<le> of_int (2 ^ 53)"
      by (simp only: of_int_le_iff)
    with px have "round_to_binary64 x \<le> of_int (2 ^ 53) * pow2 ex"
      unfolding Rx by (simp only: mult_right_mono less_imp_le)
    also have "\<dots> = 2 powi (ex + 53)"
      by (simp add: powi_two_add pow2_powi)
    also have "\<dots> \<le> 2 powi (ey + 52)"
      using lt by (rule power_int_increasing) simp
    also have "\<dots> = of_int (2 ^ 52) * pow2 ey"
      by (simp add: powi_two_add pow2_powi)
    also have "\<dots> \<le> round_to_binary64 y"
    proof -
      have "of_int (2 ^ 52) \<le> y / pow2 ey"
      proof -
        have "(2::rat) powi (ey + 52) = 2 ^ 52 * pow2 ey"
          by (simp add: powi_two_add pow2_powi)
        with by'(1) py show ?thesis
          by (simp add: pos_le_divide_eq)
      qed
      then have "round_half_even (of_int (2 ^ 52)) \<le> round_half_even (y / pow2 ey)"
        by (rule round_half_even_mono)
      then have "2 ^ 52 \<le> round_half_even (y / pow2 ey)"
        by (simp only: round_half_even_of_int)
      then have "(of_int (2 ^ 52) :: rat) \<le> of_int (round_half_even (y / pow2 ey))"
        by (simp only: of_int_le_iff)
      with py show ?thesis
        unfolding Ry by (simp only: mult_right_mono less_imp_le)
    qed
    finally show ?thesis .
  qed
qed

lemma float_exponent_uminus: "float_exponent (- x) = float_exponent x"
  by (simp add: float_exponent_def)

lemma round_to_binary64_uminus: "round_to_binary64 (- x) = - round_to_binary64 x"
  by (simp add: round_to_binary64_def float_exponent_uminus round_half_even_uminus)

lemma round_to_binary64_nonpos: "x \<le> 0 \<Longrightarrow> round_to_binary64 x \<le> 0"
  using round_to_binary64_nonneg [of "- x"] by (simp add: round_to_binary64_uminus)

lemma round_to_binary64_mono:
  assumes "x \<le> y"
  shows "round_to_binary64 x \<le> round_to_binary64 y"
proof -
  consider "0 < x" | "x \<le> 0" "0 \<le> y" | "x \<le> 0" "y < 0" by linarith
  then show ?thesis
  proof cases
    case 1
    then show ?thesis using assms by (rule round_to_binary64_pos_mono)
  next
    case 2
    from round_to_binary64_nonpos [OF 2(1)] round_to_binary64_nonneg [OF 2(2)]
    show ?thesis by linarith
  next
    case 3
    then have "0 < - y" and "- y \<le> - x" using assms by simp_all
    then have "round_to_binary64 (- y) \<le> round_to_binary64 (- x)"
      by (rule round_to_binary64_pos_mono)
    then show ?thesis by (simp add: round_to_binary64_uminus)
  qed
qed

lemma py_min_mem: "py_min x xs \<in> set (x # xs)"
  unfolding py_min_def
proof (induction xs arbitrary: x)
  case Nil
  show ?case by simp
next
  case (Cons a xs)
  from Cons.IH [of "if a < x then a else x"] show ?case
    by (auto split: if_splits)
qed

lemma py_max_mem: "py_max x xs \<in> set (x # xs)"
  unfolding py_max_def
proof (induction xs arbitrary: x)
  case Nil
  show ?case by simp
next
  case (Cons a xs)
  from Cons.IH [of "if x < a then a else x"] show ?case
    by (auto split: if_splits)
qed

lemma rounded_mean_between:
  assumes fl: "\<And>y. y \<in> set (x # xs) \<Longrightarrow> round_to_binary64 y = y"
    and exact: "py_sum (x # xs) = sum_list (x # xs)"
  shows "py_min x xs \<le> f_div (py_sum (x # xs)) (of_nat (length (x # xs)))
       \<and> f_div (py_sum (x # xs)) (of_nat (length (x # xs))) \<le> py_max x xs"
proof -
  have ne: "x # xs \<noteq> []" by simp
  from mean_between [OF ne py_min_lower py_max_upper, of x xs x xs]
  have m: "py_min x xs \<le> sum_list (x # xs) / of_nat (length (x # xs))"
    "sum_list (x # xs) / of_nat (length (x # xs)) \<le> py_max x xs"
    by blast+
  have a: "round_to_binary64 (py_min x xs) = py_min x xs"
    by (rule fl) (rule py_min_mem)
  have b: "round_to_binary64 (py_max x xs) = py_max x xs"
    by (rule fl) (rule py_max_mem)
  from round_to_binary64_mono [OF m(1)] round_to_binary64_mono [OF m(2)]
  show ?thesis
    unfolding f_div_def exact a b by blast
qed

lemma exp_1: "float_exponent 1 = - 52" by code_simp
lemma rhe_1: "round_half_even (1 / pow2 (- 52)) = 4503599627370496" by code_simp
lemma round_1: "round_to_binary64 1 = 1"
  unfolding round_to_binary64_def exp_1 rhe_1 by (simp add: pow2_def)

lemma exp_3: "float_exponent 3 = - 51" by code_simp
lemma rhe_3: "round_half_even (3 / pow2 (- 51)) = 6755399441055744" by code_simp
lemma round_3: "round_to_binary64 3 = 3"
  unfolding round_to_binary64_def exp_3 rhe_3 by (simp add: pow2_def)

lemma exp_4: "float_exponent 4 = - 50" by code_simp
lemma rhe_4: "round_half_even (4 / pow2 (- 50)) = 4503599627370496" by code_simp
lemma round_4: "round_to_binary64 4 = 4"
  unfolding round_to_binary64_def exp_4 rhe_4 by (simp add: pow2_def)

lemma exp_2: "float_exponent 2 = - 51" by code_simp
lemma rhe_2: "round_half_even (2 / pow2 (- 51)) = 4503599627370496" by code_simp
lemma round_2: "round_to_binary64 2 = 2"
  unfolding round_to_binary64_def exp_2 rhe_2 by (simp add: pow2_def)

lemma sum_one_three: "py_sum [1, 3] = 4"
  by (simp add: py_sum_def f_add_def round_1 round_4)

lemma avg_one_three: "f_div (py_sum [1, 3]) 2 = 2"
  by (simp add: sum_one_three f_div_def round_2)

lemma get_latency_stats_lookup:
  "distinct (map fst (latencies obs)) \<Longrightarrow>
     dict_lookup (get_latency_stats obs) ft =
       (case dict_lookup (latencies obs) ft of
          Some (x # xs) \<Rightarrow> Some (stats_entry x xs)
        | _ \<Rightarrow> None)"
  by (simp add: get_latency_stats_def latency_fold_lookup split: option.splits list.splits)

text \<open>
  C8, amended: \<open>get_latency_stats\<close> has no entry for a category that is absent or whose
  sequence is empty.  For a category with samples the entry has \<open>count\<close> equal to the
  length of the sequence, \<open>min_ms \<le> max_ms\<close> with every sample between the two, and
  \<open>avg_ms\<close> equal to the float quotient of the float sum by the count; when the samples
  are floats and the float sum is their exact sum, \<open>min_ms \<le> avg_ms \<le> max_ms\<close>.
\<close>

theorem C8_latency_stats:
  assumes "distinct (map fst (latencies obs))"
  shows "(dict_lookup (latencies obs) ft = None \<or> dict_lookup (latencies obs) ft = Some []
            \<longrightarrow> dict_lookup (get_latency_stats obs) ft = None)
   \<and> (\<forall>lats. dict_lookup (latencies obs) ft = Some lats \<and> lats \<noteq> [] \<longrightarrow>
        (\<exists>e. dict_lookup (get_latency_stats obs) ft = Some e
           \<and> count e = int (length lats)
           \<and> min_ms e \<le> max_ms e
           \<and> (\<forall>y \<in> set lats. min_ms e \<le> y \<and> y \<le> max_ms e)
           \<and> avg_ms e = f_div (py_sum lats) (of_nat (length lats))
           \<and> ((\<forall>y \<in> set lats. round_to_binary64 y = y) \<and> py_sum lats = sum_list lats
                \<longrightarrow> min_ms e \<le> avg_ms e \<and> avg_ms e \<le> max_ms e)))"
proof -
  have 1: "dict_lookup (latencies obs) ft = None \<or> dict_lookup (latencies obs) ft = Some []
            \<longrightarrow> dict_lookup (get_latency_stats obs) ft = None"
    using assms by (auto simp: get_latency_stats_lookup)
  have 2: "\<exists>e. dict_lookup (get_latency_stats obs) ft = Some e
           \<and> count e = int (length lats)
           \<and> min_ms e \<le> max_ms e
           \<and> (\<forall>y \<in> set lats. min_ms e \<le> y \<and> y \<le> max_ms e)
           \<and> avg_ms e = f_div (py_sum lats) (of_nat (length lats))
           \<and> ((\<forall>y \<in> set lats. round_to_binary64 y = y) \<and> py_sum lats = sum_list lats
                \<longrightarrow> min_ms e \<le> avg_ms e \<and> avg_ms e \<le> max_ms e)"
    if l: "dict_lookup (latencies obs) ft = Some lats" and ne: "lats \<noteq> []" for lats
  proof -
    from ne obtain x xs where lats: "lats = x # xs" by (cases lats) auto
    let ?e = "stats_entry x xs"
    have a: "dict_lookup (get_latency_stats obs) ft = Some ?e"
      using assms l lats by (simp add: get_latency_stats_lookup)
    have lo: "min_ms ?e \<le> y" if "y \<in> set lats" for y
      using that lats by (simp add: stats_entry_def py_min_lower)
    have hi: "y \<le> max_ms ?e" if "y \<in> set lats" for y
      using that lats by (simp add: stats_entry_def py_max_upper)
    have b: "count ?e = int (length lats)"
      by (simp add: stats_entry_def lats)
    have c: "min_ms ?e \<le> max_ms ?e"
      using lo [of x] hi [of x] lats by simp
    have d: "avg_ms ?e = f_div (py_sum lats) (of_nat (length lats))"
      by (simp add: stats_entry_def lats)
    have m: "min_ms ?e \<le> avg_ms ?e \<and> avg_ms ?e \<le> max_ms ?e"
      if "\<forall>y \<in> set lats. round_to_binary64 y = y" and "py_sum lats = sum_list lats"
      using rounded_mean_between [of x xs] that lats
      by (simp add: stats_entry_def)
    from a b c d lo hi m show ?thesis
      by (intro exI [of _ ?e]) auto
  qed
  from 1 2 show ?thesis by blast
qed

theorem C8_latency_stats_witness:
  "distinct (map fst (latencies sample_observer))
   \<and> dict_lookup (latencies sample_observer) ''EndFrame'' = Some []
   \<and> dict_lookup (get_latency_stats sample_observer) ''EndFrame'' = None
   \<and> dict_lookup (latencies sample_observer) ''TextFrame'' = Some [1, 3]
   \<and> round_to_binary64 1 = 1 \<and> round_to_binary64 3 = 3 \<and> py_sum [1, 3] = sum_list [1, 3]
   \<and> (\<exists>e. dict_lookup (get_latency_stats sample_observer) ''TextFrame'' = Some e
          \<and> count e = 2 \<and> min_ms e \<le> 1 \<and> 3 \<le> max_ms e
          \<and> min_ms e \<le> avg_ms e \<and> avg_ms e \<le> max_ms e)"
proof -
  have d: "distinct (map fst (latencies sample_observer))"
    by (simp add: sample_observer_def)
  have l1: "dict_lookup (latencies sample_observer) ''EndFrame'' = Some []"
    by (simp add: sample_observer_def)
  have l2: "dict_lookup (latencies sample_observer) ''TextFrame'' = Some [1, 3]"
    by (simp add: sample_observer_def)
  have fl: "\<forall>y \<in> set [1, 3]. round_to_binary64 y = y"
    by (simp add: round_1 round_3)
  have ex: "py_sum [1, 3] = sum_list [1, 3]"
    by (simp add: sum_one_three)
  from C8_latency_stats [OF d, of "''EndFrame''"] l1
  have 1: "dict_lookup (get_latency_stats sample_observer) ''EndFrame'' = None"
    by simp
  from C8_latency_stats [OF d, of "''TextFrame''"] l2 fl ex
  have 2: "\<exists>e. dict_lookup (get_latency_stats sample_observer) ''TextFrame'' = Some e
          \<and> count e = 2 \<and> min_ms e \<le> 1 \<and> 3 \<le> max_ms e
          \<and> min_ms e \<le> avg_ms e \<and> avg_ms e \<le> max_ms e"
    by fastforce
  from d l1 l2 1 2 ex show ?thesis
    by (simp add: round_1 round_3)
qed

lemma exp_a: "float_exponent (1 / 10) = - 56" by code_simp
lemma rhe_a: "round_half_even (1 / 10 / pow2 (- 56)) = 7205759403792794" by code_simp
lemma tenth_is_float: "round_to_binary64 (1 / 10) = tenth"
  unfolding round_to_binary64_def exp_a rhe_a tenth_def by (simp add: pow2_def)

lemma exp_b: "float_exponent (3602879701896397 / 36028797018963968) = - 56" by code_simp
lemma rhe_b: "round_half_even (3602879701896397 / 36028797018963968 / pow2 (- 56)) = 7205759403792794"
  by code_simp
lemma round_b: "round_to_binary64 (3602879701896397 / 36028797018963968) = 3602879701896397 / 36028797018963968"
  unfolding round_to_binary64_def exp_b rhe_b by (simp add: pow2_def)

lemma exp_c: "float_exponent (3602879701896397 / 18014398509481984) = - 55" by code_simp
lemma rhe_c: "round_half_even (3602879701896397 / 18014398509481984 / pow2 (- 55)) = 7205759403792794"
  by code_simp
lemma round_c: "round_to_binary64 (3602879701896397 / 18014398509481984) = 3602879701896397 / 18014398509481984"
  unfolding round_to_binary64_def exp_c rhe_c by (simp add: pow2_def)

lemma exp_d: "float_exponent (10808639105689191 / 36028797018963968) = - 54" by code_simp
lemma rhe_d: "round_half_even (10808639105689191 / 36028797018963968 / pow2 (- 54)) = 5404319552844596"
  by code_simp
lemma round_d: "round_to_binary64 (10808639105689191 / 36028797018963968) = 1351079888211149 / 4503599627370496"
  unfolding round_to_binary64_def exp_d rhe_d by (simp add: pow2_def)

lemma exp_e: "float_exponent (1351079888211149 / 13510798882111488) = - 56" by code_simp
lemma rhe_e: "round_half_even (1351079888211149 / 13510798882111488 / pow2 (- 56)) = 7205759403792795"
  by code_simp
lemma round_e: "round_to_binary64 (1351079888211149 / 13510798882111488) = 7205759403792795 / 72057594037927936"
  unfolding round_to_binary64_def exp_e rhe_e by (simp add: pow2_def)

lemma sum_three_tenths: "py_sum [tenth, tenth, tenth] = 1351079888211149 / 4503599627370496"
  by (simp add: py_sum_def f_add_def tenth_def round_b round_c round_d)

lemma avg_three_tenths: "f_div (py_sum [tenth, tenth, tenth]) 3 = 7205759403792795 / 72057594037927936"
  by (simp add: sum_three_tenths f_div_def round_e)

text \<open>
  C8, as stated: for every observer state and every category with a sample,
  \<open>min_ms \<le> avg_ms \<le> max_ms\<close>.  With three samples of \<open>0.1\<close> the float sum is
  \<open>0.30000000000000004\<close> and the average \<open>0.10000000000000002\<close>, above the maximum.
\<close>

theorem C8_counterexample:
  "round_to_binary64 (1 / 10) = tenth
   \<and> dict_lookup (get_latency_stats stuck_observer) ''TextFrame'' =
       Some \<lparr> count = 3, min_ms = tenth, max_ms = tenth, avg_ms = 7205759403792795 / 72057594037927936 \<rparr>
   \<and> tenth < 7205759403792795 / 72057594037927936"
proof -
  have "get_latency_stats stuck_observer = [(''TextFrame'', stats_entry tenth [tenth, tenth])]"
    by (simp add: get_latency_stats_def stuck_observer_def)
  moreover have "stats_entry tenth [tenth, tenth] =
      \<lparr> count = 3, min_ms = tenth, max_ms = tenth, avg_ms = 7205759403792795 / 72057594037927936 \<rparr>"
    using avg_three_tenths by (simp add: stats_entry_def py_min_def py_max_def)
  moreover have "tenth < 7205759403792795 / 72057594037927936"
    by (simp add: tenth_def)
  ultimately show ?thesis
    by (simp add: tenth_is_float)
qed

end
